theory Spec2Isabelle
  imports Main "HOL-Library.Sublist" "HOL-Library.Word"
begin

section \<open>Paths\<close>

text \<open>
  A path is kept in the form \<open>path.Clean\<close> gives it, split at the separator: whether it
  is rooted, and its elements. \<open>Path True []\<close> is the root \<open>/\<close>; \<open>Path False []\<close> is
  the empty path, which \<open>path.Join\<close> and \<open>filepath.Dir\<close> treat as \<open>.\<close>.
\<close>

datatype path = Path (isAbs: bool) (elems: "string list")

text \<open>\<open>path.Join(d, e1, ..., en)\<close> for elements that hold no separator.\<close>

fun Join :: "path \<Rightarrow> string list \<Rightarrow> path" where
  "Join (Path a cs) es = Path a (cs @ es)"

text \<open>\<open>filepath.Dir\<close>: all but the last element; the root and \<open>.\<close> are their own parents.\<close>

fun Dir :: "path \<Rightarrow> path" where
  "Dir (Path a cs) = Path a (butlast cs)"

text \<open>\<open>d + s\<close> on the path's text: the suffix lands on the last element.\<close>

fun path_suffix :: "path \<Rightarrow> string \<Rightarrow> path" where
  "path_suffix (Path a []) s = Path a [s]"
| "path_suffix (Path a (c # cs)) s = Path a (butlast (c # cs) @ [last (c # cs) @ s])"

text \<open>
  \<open>fmt.Sprintf("%s%s", filepath.VolumeName(parentDir), string(os.PathSeparator))\<close>:
  with no volume names, the root.
\<close>

definition rootPath :: path where
  "rootPath = Path True []"

text \<open>A path lies at or below a directory.\<close>

fun below :: "path \<Rightarrow> path \<Rightarrow> bool" where
  "below (Path a cs) (Path b ds) = (a = b \<and> prefix cs ds)"

text \<open>The text of a relative path, as \<open>fs.WalkDir\<close> hands it to its callback.\<close>

fun slash_join :: "string list \<Rightarrow> string" where
  "slash_join [] = ''.''"
| "slash_join [c] = c"
| "slash_join (c # d # cs) = c @ ''/'' @ slash_join (d # cs)"

section \<open>The operating system as an oracle, and the transcript of a run\<close>

datatype oserr = ErrNotExist | ErrExist | ErrPermission | ErrOther string

datatype filetype = Regular | Directory | Symlink | Irregular

type_synonym filemode = "32 word"

text \<open>
  Every call the program makes is recorded with its arguments and the answer it got.
\<close>

datatype event =
    EGetwd "oserr + path"
  | EStat path "oserr + filetype"
  | ELstat path "oserr + filetype"
  | EReadFile path "oserr + string"
  | EWriteFile path string filemode "oserr option"
  | EMkdirAll path filemode "oserr option"
  | EMkdir path filemode "oserr option"
  | EMkdirTemp path string "oserr + string"
  | ERemove path "oserr option"
  | ERemoveAll path "oserr option"
  | ERename path path "oserr option"
  | ELock path "oserr option"
  | EUnlock path "oserr option"

type_synonym transcript = "event list"

text \<open>
  The environment answers each call, knowing everything that happened before it; the
  program never sees more of the file system than these answers.
\<close>

record env =
  getwd_r :: "transcript \<Rightarrow> oserr + path"
  stat_r :: "transcript \<Rightarrow> path \<Rightarrow> oserr + filetype"
  lstat_r :: "transcript \<Rightarrow> path \<Rightarrow> oserr + filetype"
  readfile_r :: "transcript \<Rightarrow> path \<Rightarrow> oserr + string"
  writefile_r :: "transcript \<Rightarrow> path \<Rightarrow> string \<Rightarrow> filemode \<Rightarrow> oserr option"
  mkdirall_r :: "transcript \<Rightarrow> path \<Rightarrow> filemode \<Rightarrow> oserr option"
  mkdir_r :: "transcript \<Rightarrow> path \<Rightarrow> filemode \<Rightarrow> oserr option"
  mkdirtemp_r :: "transcript \<Rightarrow> path \<Rightarrow> string \<Rightarrow> oserr + string"
  remove_r :: "transcript \<Rightarrow> path \<Rightarrow> oserr option"
  removeall_r :: "transcript \<Rightarrow> path \<Rightarrow> oserr option"
  rename_r :: "transcript \<Rightarrow> path \<Rightarrow> path \<Rightarrow> oserr option"
  lock_r :: "transcript \<Rightarrow> path \<Rightarrow> oserr option"
  unlock_r :: "transcript \<Rightarrow> path \<Rightarrow> oserr option"

definition os_Getwd :: "env \<Rightarrow> transcript \<Rightarrow> (oserr + path) \<times> transcript" where
  "os_Getwd e t = (getwd_r e t, t @ [EGetwd (getwd_r e t)])"

definition os_Stat :: "env \<Rightarrow> path \<Rightarrow> transcript \<Rightarrow> (oserr + filetype) \<times> transcript" where
  "os_Stat e p t = (stat_r e t p, t @ [EStat p (stat_r e t p)])"

definition os_Lstat :: "env \<Rightarrow> path \<Rightarrow> transcript \<Rightarrow> (oserr + filetype) \<times> transcript" where
  "os_Lstat e p t = (lstat_r e t p, t @ [ELstat p (lstat_r e t p)])"

definition os_ReadFile :: "env \<Rightarrow> path \<Rightarrow> transcript \<Rightarrow> (oserr + string) \<times> transcript" where
  "os_ReadFile e p t = (readfile_r e t p, t @ [EReadFile p (readfile_r e t p)])"

definition os_WriteFile ::
  "env \<Rightarrow> path \<Rightarrow> string \<Rightarrow> filemode \<Rightarrow> transcript \<Rightarrow> oserr option \<times> transcript" where
  "os_WriteFile e p d m t = (writefile_r e t p d m, t @ [EWriteFile p d m (writefile_r e t p d m)])"

definition os_MkdirAll :: "env \<Rightarrow> path \<Rightarrow> filemode \<Rightarrow> transcript \<Rightarrow> oserr option \<times> transcript" where
  "os_MkdirAll e p m t = (mkdirall_r e t p m, t @ [EMkdirAll p m (mkdirall_r e t p m)])"

definition os_Mkdir :: "env \<Rightarrow> path \<Rightarrow> filemode \<Rightarrow> transcript \<Rightarrow> oserr option \<times> transcript" where
  "os_Mkdir e p m t = (mkdir_r e t p m, t @ [EMkdir p m (mkdir_r e t p m)])"

text \<open>
  \<open>os.MkdirTemp(dir, pattern)\<close>: the environment picks the random text that replaces the
  pattern's \<open>*\<close>.
\<close>

definition os_MkdirTemp ::
  "env \<Rightarrow> path \<Rightarrow> string \<Rightarrow> transcript \<Rightarrow> (oserr + string) \<times> transcript" where
  "os_MkdirTemp e p pat t = (mkdirtemp_r e t p pat, t @ [EMkdirTemp p pat (mkdirtemp_r e t p pat)])"

definition os_Remove :: "env \<Rightarrow> path \<Rightarrow> transcript \<Rightarrow> oserr option \<times> transcript" where
  "os_Remove e p t = (remove_r e t p, t @ [ERemove p (remove_r e t p)])"

definition os_RemoveAll :: "env \<Rightarrow> path \<Rightarrow> transcript \<Rightarrow> oserr option \<times> transcript" where
  "os_RemoveAll e p t = (removeall_r e t p, t @ [ERemoveAll p (removeall_r e t p)])"

definition os_Rename :: "env \<Rightarrow> path \<Rightarrow> path \<Rightarrow> transcript \<Rightarrow> oserr option \<times> transcript" where
  "os_Rename e a b t = (rename_r e t a b, t @ [ERename a b (rename_r e t a b)])"

definition flock_Lock :: "env \<Rightarrow> path \<Rightarrow> transcript \<Rightarrow> oserr option \<times> transcript" where
  "flock_Lock e p t = (lock_r e t p, t @ [ELock p (lock_r e t p)])"

definition flock_Unlock :: "env \<Rightarrow> path \<Rightarrow> transcript \<Rightarrow> oserr option \<times> transcript" where
  "flock_Unlock e p t = (unlock_r e t p, t @ [EUnlock p (unlock_r e t p)])"

text \<open>\<open>errors.Is(err, os.ErrNotExist)\<close> on the error of a call (\<open>nil\<close> is not one).\<close>

fun isNotExist :: "oserr + 'a \<Rightarrow> bool" where
  "isNotExist (Inl ErrNotExist) = True"
| "isNotExist _ = False"

section \<open>GetCueModParent\<close>

text \<open>
  The loop of \<open>GetCueModParent\<close>. It probes \<open>parentDir/cue.mod\<close>, stops with
  \<open>found = true\<close> unless the probe's error is not-exist, and otherwise climbs; when the
  parent is the root it gives back \<open>cwd\<close>. Nothing bounds the climb, so the loop is a
  partial function: \<open>None\<close> is a run that never returns.
\<close>

partial_function (option) GetCueModParent_loop ::
  "env \<Rightarrow> path \<Rightarrow> path \<Rightarrow> transcript \<Rightarrow> ((path \<times> bool) \<times> transcript) option" where
  "GetCueModParent_loop e cwd parentDir t =
     (case os_Stat e (Join parentDir [''cue.mod'']) t of (r, t1) \<Rightarrow>
        if \<not> isNotExist r then Some ((parentDir, True), t1)
        else if Dir parentDir = rootPath then Some ((cwd, False), t1)
        else GetCueModParent_loop e cwd (Dir parentDir) t1)"

declare GetCueModParent_loop.simps [code]

text \<open>
  \<open>GetCueModParent(args...)\<close>: the error of \<open>os.Getwd\<close> is dropped, which leaves the empty
  path; one argument replaces the starting directory, not \<open>cwd\<close>.
\<close>

definition GetCueModParent ::
  "env \<Rightarrow> path list \<Rightarrow> transcript \<Rightarrow> ((path \<times> bool) \<times> transcript) option" where
  "GetCueModParent e args t =
     (case os_Getwd e t of (r, t1) \<Rightarrow>
        (let cwd = (case r of Inr d \<Rightarrow> d | Inl _ \<Rightarrow> Path False []);
             parentDir = (if length args = 1 then hd args else cwd)
         in GetCueModParent_loop e cwd parentDir t1))"

section \<open>Versions\<close>

text \<open>
  The version library (\<open>github.com/hashicorp/go-version\<close>) is a parameter: how a text
  parses (the error's text on the left), the two comparisons the checker uses and how a
  version prints. The type of versions is the library's.
\<close>

record 'v goversion =
  gvNewVersion :: "string \<Rightarrow> string + 'v"
  gvLessThan :: "'v \<Rightarrow> 'v \<Rightarrow> bool"
  gvGreaterThan :: "'v \<Rightarrow> 'v \<Rightarrow> bool"
  gvString :: "'v \<Rightarrow> string"

text \<open>
  Package \<open>version\<close> of the tool is a parameter too: the version of this build and the
  pseudo-version of a development build.
\<close>

record build =
  Version :: string
  DevelopmentVersion :: string

definition DaggerModule :: string where
  "DaggerModule = ''dagger.io''"

definition UniverseModule :: string where
  "UniverseModule = ''universe.dagger.io''"

text \<open>
  \<open>ModuleRequirements\<close>, with the texts the source parses at start-up. The source keeps it
  in a Go map, which has no order: a \<open>range\<close> over it visits the entries in an order the
  runtime picks.
\<close>

definition ModuleRequirements :: "(string \<times> string) list" where
  "ModuleRequirements = [(DaggerModule, ''0.2.11''), (UniverseModule, ''0.2.9'')]"

text \<open>
  The table after the start-up parse (\<open>gv.Must\<close> panics where a text does not parse:
  \<open>None\<close>).
\<close>

fun parseRequirements :: "'v goversion \<Rightarrow> (string \<times> string) list \<Rightarrow> (string \<times> 'v) list option" where
  "parseRequirements lib [] = Some []"
| "parseRequirements lib ((m, s) # rest) =
     (case gvNewVersion lib s of
        Inl _ \<Rightarrow> None
      | Inr v \<Rightarrow> (case parseRequirements lib rest of None \<Rightarrow> None | Some vs \<Rightarrow> Some ((m, v) # vs)))"

text \<open>
  An order a \<open>range\<close> over the table may take: the entries of the parsed table, each once.
\<close>

definition rangeOrder :: "'v goversion \<Rightarrow> (string \<times> 'v) list \<Rightarrow> bool" where
  "rangeOrder lib order =
     (case parseRequirements lib ModuleRequirements of
        None \<Rightarrow> False
      | Some tab \<Rightarrow> length order = length tab \<and> set order = set tab \<and> distinct order)"

definition lockFilePath :: string where
  "lockFilePath = ''dagger.lock''"

definition versionFilePath :: "string list" where
  "versionFilePath = [''cue.mod'', ''version.txt'']"

section \<open>EnsureCompatibility\<close>

text \<open>
  The errors \<open>EnsureCompatibility\<close> returns, by the statement that builds them, and the
  panic of \<open>gv.Must\<close> on the tool's own version.
\<close>

datatype 'v compat_error =
    ReadFailed path oserr
  | MissingVersionMarker string 'v
  | MalformedVersion path string
  | IncompatibleModule string 'v 'v
  | NeedsUpgrade 'v
  | MustPanic string

text \<open>\<open>%q\<close> of a text of printable ASCII: quoted, with quote and backslash escaped.\<close>

definition quote :: "string \<Rightarrow> string" where
  "quote s = [CHR 0x22] @ concat (map (\<lambda>c. if c = CHR 0x22 \<or> c = CHR 0x5C then [CHR 0x5C, c] else [c]) s)
     @ [CHR 0x22]"

fun oserr_text :: "oserr \<Rightarrow> string" where
  "oserr_text ErrNotExist = ''file does not exist''"
| "oserr_text ErrExist = ''file already exists''"
| "oserr_text ErrPermission = ''permission denied''"
| "oserr_text (ErrOther s) = s"

text \<open>The text of a path, for a message.\<close>

fun path_text :: "path \<Rightarrow> string" where
  "path_text (Path True cs) = (if cs = [] then ''/'' else ''/'' @ slash_join cs)"
| "path_text (Path False cs) = slash_join cs"

text \<open>The message of each error, as its \<open>fmt.Errorf\<close> formats it.\<close>

fun message :: "'v goversion \<Rightarrow> 'v compat_error \<Rightarrow> string" where
  "message lib (ReadFailed f err) =
     ''failed to read '' @ quote (path_text f) @ '': '' @ oserr_text err"
| "message lib (MissingVersionMarker module minimumVersion) =
     ''package '' @ quote module
       @ '' is incompatible with this version of dagger-cue (requires ''
       @ gvString lib minimumVersion
       @ '' or newer). Run `dagger-cue project update` to resolve this''"
| "message lib (MalformedVersion f err) =
     ''failed to parse '' @ quote (path_text f) @ '': '' @ err"
| "message lib (IncompatibleModule module vendoredVersion minimumVersion) =
     ''package '' @ quote module @ '' (version '' @ gvString lib vendoredVersion
       @ '') is incompatible with this version of dagger-cue (requires ''
       @ gvString lib minimumVersion
       @ '' or newer). Run `dagger-cue project update` to resolve this''"
| "message lib (NeedsUpgrade vendoredVersion) =
     ''this plan requires dagger-cue '' @ gvString lib vendoredVersion
       @ '' or newer. Run `dagger-cue version --check` to check for latest version''"
| "message lib (MustPanic err) = err"

text \<open>
  \<open>strings.TrimSpace\<close> on the bytes of a text. It takes off, at both ends, every character
  that \<open>unicode.IsSpace\<close> accepts: the six of ASCII and, in their UTF-8 encoding, U+0085,
  U+00A0, U+1680, U+2000 to U+200A, U+2028, U+2029, U+202F, U+205F and U+3000. Bytes that
  are no such encoding stop it (an ill-formed sequence decodes to U+FFFD, which is no
  space).
\<close>

definition asciiSpace :: "char \<Rightarrow> bool" where
  "asciiSpace c = (c \<in> set [CHR 0x09, CHR 0x0A, CHR 0x0B, CHR 0x0C, CHR 0x0D, CHR 0x20])"

definition isSpace2 :: "char \<Rightarrow> char \<Rightarrow> bool" where
  "isSpace2 c1 c2 = (c1 = CHR 0xC2 \<and> (c2 = CHR 0x85 \<or> c2 = CHR 0xA0))"

definition isSpace3 :: "char \<Rightarrow> char \<Rightarrow> char \<Rightarrow> bool" where
  "isSpace3 c1 c2 c3 =
     ((c1 = CHR 0xE1 \<and> c2 = CHR 0x9A \<and> c3 = CHR 0x80)
      \<or> (c1 = CHR 0xE2 \<and> c2 = CHR 0x80
          \<and> c3 \<in> set [CHR 0x80, CHR 0x81, CHR 0x82, CHR 0x83, CHR 0x84, CHR 0x85, CHR 0x86,
                        CHR 0x87, CHR 0x88, CHR 0x89, CHR 0x8A, CHR 0xA8, CHR 0xA9, CHR 0xAF])
      \<or> (c1 = CHR 0xE2 \<and> c2 = CHR 0x81 \<and> c3 = CHR 0x9F)
      \<or> (c1 = CHR 0xE3 \<and> c2 = CHR 0x80 \<and> c3 = CHR 0x80))"

text \<open>The spaces at the start of a text.\<close>

fun TrimLeft :: "string \<Rightarrow> string" where
  "TrimLeft (c1 # c2 # c3 # cs) =
     (if asciiSpace c1 then TrimLeft (c2 # c3 # cs)
      else if isSpace2 c1 c2 then TrimLeft (c3 # cs)
      else if isSpace3 c1 c2 c3 then TrimLeft cs
      else c1 # c2 # c3 # cs)"
| "TrimLeft [c1, c2] =
     (if asciiSpace c1 then TrimLeft [c2] else if isSpace2 c1 c2 then [] else [c1, c2])"
| "TrimLeft [c1] = (if asciiSpace c1 then [] else [c1])"
| "TrimLeft [] = []"

text \<open>
  The spaces at the end of a text, on the text read backwards: the last character is
  decoded from the byte that starts it.
\<close>

fun TrimRightRev :: "string \<Rightarrow> string" where
  "TrimRightRev (c1 # c2 # c3 # cs) =
     (if asciiSpace c1 then TrimRightRev (c2 # c3 # cs)
      else if isSpace2 c2 c1 then TrimRightRev (c3 # cs)
      else if isSpace3 c3 c2 c1 then TrimRightRev cs
      else c1 # c2 # c3 # cs)"
| "TrimRightRev [c1, c2] =
     (if asciiSpace c1 then TrimRightRev [c2] else if isSpace2 c2 c1 then [] else [c1, c2])"
| "TrimRightRev [c1] = (if asciiSpace c1 then [] else [c1])"
| "TrimRightRev [] = []"

definition TrimSpace :: "string \<Rightarrow> string" where
  "TrimSpace s = rev (TrimRightRev (rev (TrimLeft s)))"

text \<open>
  The body of the loop over the table, on one entry: \<open>None\<close> is \<open>continue\<close> or the end
  of the body, \<open>Some err\<close> is \<open>return err\<close>.
\<close>

definition checkModule ::
  "'v goversion \<Rightarrow> env \<Rightarrow> 'v \<Rightarrow> path \<Rightarrow> string \<times> 'v \<Rightarrow> transcript
     \<Rightarrow> 'v compat_error option \<times> transcript" where
  "checkModule lib e daggerVersion cuePkgDir entry t =
     (case entry of (module, minimumVersion) \<Rightarrow>
      (let moduleDir = Join cuePkgDir [module] in
       (case os_Lstat e moduleDir t of (fi, t1) \<Rightarrow>
          if fi = Inr Symlink then (None, t1)
          else
            (let versionFile = Join moduleDir versionFilePath in
             (case os_ReadFile e versionFile t1 of (r, t2) \<Rightarrow>
                (case r of
                   Inl err \<Rightarrow>
                     if err \<noteq> ErrNotExist then (Some (ReadFailed versionFile err), t2)
                     else (Some (MissingVersionMarker module minimumVersion), t2)
                 | Inr data \<Rightarrow>
                     (case gvNewVersion lib (TrimSpace data) of
                        Inl perr \<Rightarrow> (Some (MalformedVersion versionFile perr), t2)
                      | Inr vendoredVersion \<Rightarrow>
                          if gvLessThan lib vendoredVersion minimumVersion
                          then (Some (IncompatibleModule module vendoredVersion minimumVersion), t2)
                          else if gvGreaterThan lib vendoredVersion daggerVersion
                          then (Some (NeedsUpgrade vendoredVersion), t2)
                          else (None, t2))))))))"

text \<open>The loop, over the entries in the order the \<open>range\<close> visits them.\<close>

fun checkModules ::
  "'v goversion \<Rightarrow> env \<Rightarrow> 'v \<Rightarrow> path \<Rightarrow> (string \<times> 'v) list \<Rightarrow> transcript
     \<Rightarrow> 'v compat_error option \<times> transcript" where
  "checkModules lib e daggerVersion cuePkgDir [] t = (None, t)"
| "checkModules lib e daggerVersion cuePkgDir (entry # rest) t =
     (case checkModule lib e daggerVersion cuePkgDir entry t of
        (Some err, t1) \<Rightarrow> (Some err, t1)
      | (None, t1) \<Rightarrow> checkModules lib e daggerVersion cuePkgDir rest t1)"

text \<open>
  \<open>if p == "" { p, _ = GetCueModParent() }\<close>, which opens \<open>EnsureCompatibility\<close> and
  \<open>Vendor\<close>; \<open>p = None\<close> is the empty text.
\<close>

definition projectRoot :: "env \<Rightarrow> path option \<Rightarrow> transcript \<Rightarrow> (path \<times> transcript) option" where
  "projectRoot e p t =
     (case p of
        None \<Rightarrow> map_option (\<lambda>((d, found), t1). (d, t1)) (GetCueModParent e [] t)
      | Some d \<Rightarrow> Some (d, t))"

text \<open>
  \<open>EnsureCompatibility(ctx, p)\<close>. \<open>order\<close> is the order the
  \<open>range\<close> takes in this run. The outer \<open>None\<close> is a run that never returns (the search
  for the project root may not).
\<close>

definition EnsureCompatibility ::
  "'v goversion \<Rightarrow> build \<Rightarrow> (string \<times> 'v) list \<Rightarrow> env \<Rightarrow> path option \<Rightarrow> transcript
     \<Rightarrow> ('v compat_error option \<times> transcript) option" where
  "EnsureCompatibility lib b order e p t =
     (if Version b = DevelopmentVersion b then Some (None, t)
      else
        (case gvNewVersion lib (Version b) of
           Inl perr \<Rightarrow> Some (Some (MustPanic perr), t)
         | Inr daggerVersion \<Rightarrow>
             (case projectRoot e p t of
                None \<Rightarrow> None
              | Some (d, t1) \<Rightarrow>
                  Some (checkModules lib e daggerVersion (Join d [''cue.mod'', ''pkg'']) order
                          t1))))"

section \<open>A version library to run the checker on\<close>

text \<open>
  Plain dotted decimal versions, compared element by element with missing elements read
  as zero: enough of the library to evaluate the checker on the texts of the table.
\<close>

definition digitVal :: "char \<Rightarrow> nat option" where
  "digitVal c = (let n = of_char c :: nat in if 48 \<le> n \<and> n \<le> 57 then Some (n - 48) else None)"

fun parseNat :: "nat \<Rightarrow> string \<Rightarrow> nat option" where
  "parseNat acc [] = Some acc"
| "parseNat acc (c # cs) =
     (case digitVal c of None \<Rightarrow> None | Some d \<Rightarrow> parseNat (10 * acc + d) cs)"

fun splitDots :: "string \<Rightarrow> string \<Rightarrow> string list" where
  "splitDots cur [] = [rev cur]"
| "splitDots cur (c # cs) = (if c = CHR ''.'' then rev cur # splitDots [] cs else splitDots (c # cur) cs)"

fun parseSegments :: "string list \<Rightarrow> nat list option" where
  "parseSegments [] = Some []"
| "parseSegments (s # ss) =
     (if s = [] then None
      else case parseNat 0 s of
             None \<Rightarrow> None
           | Some n \<Rightarrow> (case parseSegments ss of None \<Rightarrow> None | Some ns \<Rightarrow> Some (n # ns)))"

fun segCompare :: "nat list \<Rightarrow> nat list \<Rightarrow> int" where
  "segCompare [] [] = 0"
| "segCompare (x # xs) [] = (if x = 0 then segCompare xs [] else 1)"
| "segCompare [] (y # ys) = (if y = 0 then segCompare [] ys else - 1)"
| "segCompare (x # xs) (y # ys) = (if x < y then - 1 else if y < x then 1 else segCompare xs ys)"

fun natDigits :: "nat \<Rightarrow> nat \<Rightarrow> string" where
  "natDigits 0 n = []"
| "natDigits (Suc fuel) n =
     (if n < 10 then [char_of (48 + n)] else natDigits fuel (n div 10) @ [char_of (48 + n mod 10)])"

fun segString :: "nat list \<Rightarrow> string" where
  "segString [] = []"
| "segString [n] = natDigits (Suc n) n"
| "segString (n # m # ns) = natDigits (Suc n) n @ ''.'' @ segString (m # ns)"

definition dotted :: "nat list goversion" where
  "dotted = \<lparr>
     gvNewVersion = (\<lambda>s. case parseSegments (splitDots [] s) of
                            None \<Rightarrow> Inl (''Malformed version: '' @ s)
                          | Some ns \<Rightarrow> Inr ns),
     gvLessThan = (\<lambda>v w. segCompare v w < 0),
     gvGreaterThan = (\<lambda>v w. segCompare v w > 0),
     gvString = segString \<rparr>"

section \<open>extractModules\<close>

text \<open>The permission bits the source writes (octal 0755, 0700 and 0600).\<close>

definition mode0755 :: filemode where
  "mode0755 = 0x1ED"

definition mode0700 :: filemode where
  "mode0700 = 0x1C0"

definition mode0600 :: filemode where
  "mode0600 = 0x180"

text \<open>
  The embedded bundle \<open>FS\<close> is a parameter, given as \<open>fs.WalkDir(FS, ".", ...)\<close> hands it
  to its callback: one record per call, in the order of the walk, with the path (split at
  the separator; the root \<open>.\<close> has no element), the type of the entry, the error the walk
  passes in, and what \<open>fs.ReadFile(FS, p)\<close> gives for the path.
\<close>

record walk_entry =
  wpath :: "string list"
  wtype :: filetype
  werr :: "oserr option"
  wread :: "oserr + string"

datatype vendor_error = OsError oserr | BundleError string oserr

text \<open>The callback of the walk, on one entry: \<open>Some err\<close> stops the walk.\<close>

definition extractEntry ::
  "env \<Rightarrow> path \<Rightarrow> walk_entry \<Rightarrow> transcript \<Rightarrow> vendor_error option \<times> transcript" where
  "extractEntry e dest w t =
     (case werr w of
        Some err \<Rightarrow> (Some (OsError err), t)
      | None \<Rightarrow>
          if wtype w \<noteq> Regular then (None, t)
          else if sublist ''cue.mod/pkg'' (slash_join (wpath w)) then (None, t)
          else
            (case wread w of
               Inl err \<Rightarrow> (Some (BundleError (slash_join (wpath w)) err), t)
             | Inr contents \<Rightarrow>
                 (let overlayPath = Join dest (wpath w) in
                  (case os_MkdirAll e (Dir overlayPath) mode0755 t of
                     (Some err, t1) \<Rightarrow> (Some (OsError err), t1)
                   | (None, t1) \<Rightarrow>
                       (case os_WriteFile e overlayPath contents mode0700 t1 of
                          (r, t2) \<Rightarrow> (map_option OsError r, t2))))))"

fun extractModules ::
  "env \<Rightarrow> path \<Rightarrow> walk_entry list \<Rightarrow> transcript \<Rightarrow> vendor_error option \<times> transcript" where
  "extractModules e dest [] t = (None, t)"
| "extractModules e dest (w # ws) t =
     (case extractEntry e dest w t of
        (Some err, t1) \<Rightarrow> (Some err, t1)
      | (None, t1) \<Rightarrow> extractModules e dest ws t1)"

section \<open>CueModInit\<close>

text \<open>
  \<open>filepath.Join(wd, p)\<close> for a cleaned relative path \<open>p\<close>: the result is cleaned, so each
  \<open>..\<close> at the start of \<open>p\<close> takes the last element off \<open>wd\<close>; the root has none to take
  off, and a relative \<open>wd\<close> that is used up keeps the \<open>..\<close>.
\<close>

fun filepath_Join :: "path \<Rightarrow> string list \<Rightarrow> path" where
  "filepath_Join (Path a cs) [] = Path a cs"
| "filepath_Join (Path a cs) (x # xs) =
     (if x = ''..''
      then (if cs \<noteq> [] \<and> last cs \<noteq> ''..'' then filepath_Join (Path a (butlast cs)) xs
            else if a then filepath_Join (Path a cs) xs
            else filepath_Join (Path a (cs @ [x])) xs)
      else filepath_Join (Path a (cs @ [x])) xs)"

text \<open>\<open>filepath.Abs\<close>: a rooted path as it is, any other joined to the working directory.\<close>

definition filepath_Abs :: "env \<Rightarrow> path \<Rightarrow> transcript \<Rightarrow> (oserr + path) \<times> transcript" where
  "filepath_Abs e p t =
     (if isAbs p then (Inr p, t)
      else (case os_Getwd e t of
              (Inl err, t1) \<Rightarrow> (Inl err, t1)
            | (Inr wd, t1) \<Rightarrow> (Inr (filepath_Join wd (elems p)), t1)))"

text \<open>
  \<open>CueModInit(ctx, parentDir, module)\<close>. The error of \<open>os.Stat\<close> is always a
  \<open>*os.PathError\<close>, so every failed probe of \<open>module.cue\<close> leads to the write.
\<close>

definition CueModInit :: "env \<Rightarrow> path \<Rightarrow> string \<Rightarrow> transcript \<Rightarrow> oserr option \<times> transcript" where
  "CueModInit e parentDir module t =
     (case filepath_Abs e parentDir t of
        (Inl err, t1) \<Rightarrow> (Some err, t1)
      | (Inr absParentDir, t1) \<Rightarrow>
          (let modDir = Join absParentDir [''cue.mod''] in
           (case os_MkdirAll e modDir mode0755 t1 of (r2, t2) \<Rightarrow>
              if r2 \<noteq> None \<and> r2 \<noteq> Some ErrExist then (r2, t2)
              else
                (let modFile = Join modDir [''module.cue''] in
                 (case os_Stat e modFile t2 of (st, t3) \<Rightarrow>
                    (case (case st of
                             Inl _ \<Rightarrow>
                               os_WriteFile e modFile
                                 (''module: '' @ [CHR 0x22] @ module @ [CHR 0x22]) mode0600 t3
                           | Inr _ \<Rightarrow> (None, t3)) of
                       (Some err, t4) \<Rightarrow> (Some err, t4)
                     | (None, t4) \<Rightarrow>
                         (case os_Mkdir e (Join modDir [''pkg'']) mode0755 t4 of (r5, t5) \<Rightarrow>
                            if r5 \<noteq> None \<and> r5 \<noteq> Some ErrExist then (r5, t5)
                            else (None, t5))))))))"

section \<open>Vendor\<close>

text \<open>
  The body of the loop over the table, on the module \<open>module\<close>. \<open>ds\<close> holds the backups
  whose removal has been deferred, the latest first; the body returns them with its
  result, where \<open>None\<close> is \<open>continue\<close> or the end of the body and \<open>Some err\<close> is
  \<open>return err\<close>.
\<close>

definition vendorModule ::
  "build \<Rightarrow> env \<Rightarrow> path \<Rightarrow> path \<Rightarrow> string \<Rightarrow> path list \<Rightarrow> transcript
     \<Rightarrow> oserr option \<times> path list \<times> transcript" where
  "vendorModule b e cuePkgDir unpackDir module ds t =
     (let newModuleDir = Join unpackDir [module];
          moduleDir = Join cuePkgDir [module];
          backupModuleDir = path_suffix moduleDir ''.old''
      in
      (case os_Lstat e moduleDir t of (fi, t1) \<Rightarrow>
         if fi = Inr Symlink then (None, ds, t1)
         else
           (case (if Version b \<noteq> DevelopmentVersion b
                  then os_WriteFile e (Join newModuleDir versionFilePath) (Version b) mode0600 t1
                  else (None, t1)) of
              (Some err, t2) \<Rightarrow> (Some err, ds, t2)
            | (None, t2) \<Rightarrow>
                (case os_RemoveAll e backupModuleDir t2 of (r3, t3) \<Rightarrow>
                   if r3 \<noteq> None \<and> r3 \<noteq> Some ErrNotExist then (r3, ds, t3)
                   else
                     (case os_Rename e moduleDir backupModuleDir t3 of (r4, t4) \<Rightarrow>
                        if r4 \<noteq> None \<and> r4 \<noteq> Some ErrNotExist then (r4, ds, t4)
                        else
                          (case os_Rename e newModuleDir moduleDir t4 of
                             (r5, t5) \<Rightarrow> (r5, backupModuleDir # ds, t5)))))))"

text \<open>The loop, over the modules in the order the \<open>range\<close> visits them.\<close>

fun vendorModules ::
  "build \<Rightarrow> env \<Rightarrow> path \<Rightarrow> path \<Rightarrow> (string \<times> 'v) list \<Rightarrow> path list \<Rightarrow> transcript
     \<Rightarrow> oserr option \<times> path list \<times> transcript" where
  "vendorModules b e cuePkgDir unpackDir [] ds t = (None, ds, t)"
| "vendorModules b e cuePkgDir unpackDir (entry # rest) ds t =
     (case vendorModule b e cuePkgDir unpackDir (fst entry) ds t of
        (Some err, ds1, t1) \<Rightarrow> (Some err, ds1, t1)
      | (None, ds1, t1) \<Rightarrow> vendorModules b e cuePkgDir unpackDir rest ds1 t1)"

text \<open>The deferred \<open>os.RemoveAll(backupModuleDir)\<close> calls, the latest first.\<close>

fun removeBackups :: "env \<Rightarrow> path list \<Rightarrow> transcript \<Rightarrow> transcript" where
  "removeBackups e [] t = t"
| "removeBackups e (d # ds) t = removeBackups e ds (snd (os_RemoveAll e d t))"

text \<open>
  \<open>Vendor\<close> from \<open>extractModules(unpackDir)\<close> on: what runs once the removal of the
  staging directory has been deferred.
\<close>

definition vendorStaged ::
  "build \<Rightarrow> walk_entry list \<Rightarrow> (string \<times> 'v) list \<Rightarrow> env \<Rightarrow> path \<Rightarrow> path \<Rightarrow> transcript
     \<Rightarrow> vendor_error option \<times> transcript" where
  "vendorStaged b FS order e cuePkgDir unpackDir t =
     (case extractModules e unpackDir FS t of
        (Some err, t1) \<Rightarrow> (Some err, t1)
      | (None, t1) \<Rightarrow>
          (case vendorModules b e cuePkgDir unpackDir order [] t1 of
             (res, ds, t2) \<Rightarrow> (map_option OsError res, removeBackups e ds t2)))"

text \<open>
  The step that removes a \<open>.gitignore\<close> of the old style: the file is read, and removed
  where its text starts with the marker; no error of either call is looked at.
\<close>

definition removeGitignore :: "env \<Rightarrow> path \<Rightarrow> transcript \<Rightarrow> transcript" where
  "removeGitignore e cuePkgDir t =
     (let gitignorePath = Join cuePkgDir [''.gitignore''] in
      (case os_ReadFile e gitignorePath t of
         (Inr contents, t1) \<Rightarrow>
           if prefix ''# generated by dagger'' contents
           then snd (os_Remove e gitignorePath t1) else t1
       | (Inl _, t1) \<Rightarrow> t1))"

text \<open>
  \<open>Vendor\<close> from \<open>CueModInit\<close> on: what runs once the release of the lock has been
  deferred. The deferred removal of the staging directory runs after the backups'.
\<close>

definition vendorLocked ::
  "build \<Rightarrow> walk_entry list \<Rightarrow> (string \<times> 'v) list \<Rightarrow> env \<Rightarrow> path \<Rightarrow> path \<Rightarrow> transcript
     \<Rightarrow> vendor_error option \<times> transcript" where
  "vendorLocked b FS order e p cuePkgDir t =
     (case CueModInit e p [] t of
        (Some err, t1) \<Rightarrow> (Some (OsError err), t1)
      | (None, t1) \<Rightarrow>
          (let t2 = removeGitignore e cuePkgDir t1 in
           (case os_WriteFile e (Join cuePkgDir [''.gitattributes''])
                   (''# generated by dagger'' @ [CHR 0x0A] @ ''** linguist-generated=true''
                      @ [CHR 0x0A])
                   mode0600 t2 of
              (Some err, t3) \<Rightarrow> (Some (OsError err), t3)
            | (None, t3) \<Rightarrow>
                (case os_MkdirTemp e cuePkgDir ''vendor-*'' t3 of
                   (Inl err, t4) \<Rightarrow> (Some (OsError err), t4)
                 | (Inr rnd, t4) \<Rightarrow>
                     (let unpackDir = Join cuePkgDir [''vendor-'' @ rnd] in
                      (case vendorStaged b FS order e cuePkgDir unpackDir t4 of
                         (res, t5) \<Rightarrow> (res, snd (os_RemoveAll e unpackDir t5))))))))"

text \<open>
  \<open>Vendor(ctx, p)\<close>. The deferred function releases the lock and removes its file, whatever
  the rest returned. The outer \<open>None\<close> is a run that never returns.
\<close>

definition Vendor ::
  "build \<Rightarrow> walk_entry list \<Rightarrow> (string \<times> 'v) list \<Rightarrow> env \<Rightarrow> path option \<Rightarrow> transcript
     \<Rightarrow> (vendor_error option \<times> transcript) option" where
  "Vendor b FS order e p t =
     (case projectRoot e p t of
        None \<Rightarrow> None
      | Some (d, t0) \<Rightarrow>
          (let cuePkgDir = Join d [''cue.mod'', ''pkg''] in
           (case os_MkdirAll e cuePkgDir mode0755 t0 of
              (Some err, t1) \<Rightarrow> Some (Some (OsError err), t1)
            | (None, t1) \<Rightarrow>
                (let lockFile = Join cuePkgDir [lockFilePath] in
                 (case flock_Lock e lockFile t1 of
                    (Some err, t2) \<Rightarrow> Some (Some (OsError err), t2)
                  | (None, t2) \<Rightarrow>
                      (case vendorLocked b FS order e d cuePkgDir t2 of
                         (res, t3) \<Rightarrow>
                           Some (res,
                             snd (os_Remove e lockFile (snd (flock_Unlock e lockFile t3))))))))))"

section \<open>Reading a transcript\<close>

text \<open>The calls of the search for the project root.\<close>

fun isProbe :: "event \<Rightarrow> bool" where
  "isProbe (EGetwd _) = True"
| "isProbe (EStat _ _) = True"
| "isProbe _ = False"

text \<open>The calls that change nothing.\<close>

fun readOnly :: "event \<Rightarrow> bool" where
  "readOnly (EGetwd _) = True"
| "readOnly (EStat _ _) = True"
| "readOnly (ELstat _ _) = True"
| "readOnly (EReadFile _ _) = True"
| "readOnly _ = False"

text \<open>
  A call disturbs a directory entry \<open>d\<close> when it removes or renames \<open>d\<close>, a directory
  above it or anything below it, renames something onto one of these, or creates or writes
  \<open>d\<close> or something below it (taking a lock creates the lock file). Paths are compared as
  the program wrote them.
\<close>

fun disturbs :: "path \<Rightarrow> event \<Rightarrow> bool" where
  "disturbs d (ERemove q _) = (below q d \<or> below d q)"
| "disturbs d (ERemoveAll q _) = (below q d \<or> below d q)"
| "disturbs d (ERename a b _) = (below a d \<or> below d a \<or> below b d \<or> below d b)"
| "disturbs d (EWriteFile q _ _ _) = below d q"
| "disturbs d (EMkdir q _ _) = below d q"
| "disturbs d (EMkdirAll q _ _) = below d q"
| "disturbs d (EMkdirTemp q _ _) = below d q"
| "disturbs d (ELock q _) = below d q"
| "disturbs d _ = False"

section \<open>Environments and inputs to evaluate on\<close>

text \<open>
  An environment that answers from a fixed state: the working directory, what a probe of
  each path finds, what each file holds. Every other call succeeds.
\<close>

definition staticEnv ::
  "path \<Rightarrow> (path \<Rightarrow> oserr + filetype) \<Rightarrow> (path \<Rightarrow> oserr + string) \<Rightarrow> env" where
  "staticEnv wd st rd = \<lparr>
     getwd_r = (\<lambda>t. Inr wd),
     stat_r = (\<lambda>t. st),
     lstat_r = (\<lambda>t. st),
     readfile_r = (\<lambda>t. rd),
     writefile_r = (\<lambda>t p d m. None),
     mkdirall_r = (\<lambda>t p m. None),
     mkdir_r = (\<lambda>t p m. None),
     mkdirtemp_r = (\<lambda>t p pat. Inr ''042''),
     remove_r = (\<lambda>t p. None),
     removeall_r = (\<lambda>t p. None),
     rename_r = (\<lambda>t a b. None),
     lock_r = (\<lambda>t p. None),
     unlock_r = (\<lambda>t p. None) \<rparr>"

definition exRoot :: path where
  "exRoot = Path True [''proj'']"

definition exPkg :: path where
  "exPkg = Path True [''proj'', ''cue.mod'', ''pkg'']"

definition exMarker :: "string \<Rightarrow> path" where
  "exMarker m = Path True [''proj'', ''cue.mod'', ''pkg'', m, ''cue.mod'', ''version.txt'']"

text \<open>Both module directories exist, neither holds a version marker.\<close>

definition envNoMarkers :: env where
  "envNoMarkers = staticEnv exRoot (\<lambda>p. Inr Directory) (\<lambda>p. Inl ErrNotExist)"

text \<open>Both module directories exist, only that of \<open>dagger.io\<close> holds a marker, with text \<open>s\<close>.\<close>

definition envDaggerMarker :: "string \<Rightarrow> env" where
  "envDaggerMarker s =
     staticEnv exRoot (\<lambda>p. Inr Directory)
       (\<lambda>p. if p = exMarker ''dagger.io'' then Inr s else Inl ErrNotExist)"

text \<open>Both module directories exist, and each holds a marker: \<open>s\<close> and \<open>u\<close>.\<close>

definition envMarkers :: "string \<Rightarrow> string \<Rightarrow> env" where
  "envMarkers s u =
     staticEnv exRoot (\<lambda>p. Inr Directory)
       (\<lambda>p. if p = exMarker ''dagger.io'' then Inr s
            else if p = exMarker ''universe.dagger.io'' then Inr u
            else Inl ErrNotExist)"

text \<open>No directory holds \<open>cue.mod\<close>; the working directory is \<open>/work\<close>.\<close>

definition envNoProject :: env where
  "envNoProject = staticEnv (Path True [''work'']) (\<lambda>p. Inl ErrNotExist) (\<lambda>p. Inl ErrNotExist)"

definition release :: "string \<Rightarrow> build" where
  "release v = \<lparr> Version = v, DevelopmentVersion = ''devel'' \<rparr>"

definition tableOrder :: "(string \<times> nat list) list" where
  "tableOrder = [(''dagger.io'', [0, 2, 11]), (''universe.dagger.io'', [0, 2, 9])]"

definition otherOrder :: "(string \<times> nat list) list" where
  "otherOrder = [(''universe.dagger.io'', [0, 2, 9]), (''dagger.io'', [0, 2, 11])]"

text \<open>
  \<open>/a/b/c\<close> and \<open>/a/b\<close> hold no \<open>cue.mod\<close>; the probe of \<open>/a/cue.mod\<close> is refused.
\<close>

definition envDenied :: env where
  "envDenied =
     staticEnv (Path True [''work''])
       (\<lambda>p. if p = Path True [''a'', ''cue.mod''] then Inl ErrPermission else Inl ErrNotExist)
       (\<lambda>p. Inl ErrNotExist)"

text \<open>
  The directory of \<open>dagger.io\<close> holds the marker \<open>0.2.11\<close>; that of \<open>universe.dagger.io\<close>
  is a symlink, and the marker read through it holds \<open>0.0.1\<close>, below the minimum.
\<close>

definition envSymlink :: env where
  "envSymlink =
     staticEnv exRoot
       (\<lambda>p. if p = Path True [''proj'', ''cue.mod'', ''pkg'', ''universe.dagger.io'']
            then Inr Symlink else Inr Directory)
       (\<lambda>p. if p = exMarker ''dagger.io'' then Inr ''0.2.11''
            else if p = exMarker ''universe.dagger.io'' then Inr ''0.0.1''
            else Inl ErrNotExist)"

text \<open>A bundle of a directory and two files, one of them under \<open>cue.mod/pkg\<close>.\<close>

definition exBundle :: "walk_entry list" where
  "exBundle =
     [\<lparr> wpath = [], wtype = Directory, werr = None, wread = Inl (ErrOther ''is a directory'') \<rparr>,
      \<lparr> wpath = [''dagger.io'', ''dagger.cue''], wtype = Regular, werr = None,
        wread = Inr ''package dagger'' \<rparr>,
      \<lparr> wpath = [''dagger.io'', ''cue.mod'', ''pkg'', ''x.cue''], wtype = Regular, werr = None,
        wread = Inr ''package x'' \<rparr>]"


section \<open>What a run may put on its transcript\<close>

text \<open>A transcript grows from \<open>t\<close> to \<open>t'\<close> by calls that all satisfy \<open>Q\<close>.\<close>

definition extends :: "(event \<Rightarrow> bool) \<Rightarrow> transcript \<Rightarrow> transcript \<Rightarrow> bool" where
  "extends Q t t' = (\<exists>ts. t' = t @ ts \<and> list_all Q ts)"

text \<open>The entries \<open>extractModules\<close> copies: regular files whose path passes the test.\<close>

definition materialized :: "walk_entry \<Rightarrow> bool" where
  "materialized w = (wtype w = Regular \<and> \<not> sublist ''cue.mod/pkg'' (slash_join (wpath w)))"


text \<open>The bytes an entry holds, where reading it succeeds.\<close>

definition entryData :: "walk_entry \<Rightarrow> string" where
  "entryData w = (case wread w of Inr c \<Rightarrow> c | Inl _ \<Rightarrow> [])"

text \<open>The two calls that copy one entry.\<close>

definition copyCalls :: "path \<Rightarrow> walk_entry \<Rightarrow> transcript" where
  "copyCalls dest w =
     [EMkdirAll (Dir (Join dest (wpath w))) mode0755 None,
      EWriteFile (Join dest (wpath w)) (entryData w) mode0700 None]"

text \<open>The calls of \<open>extractModules\<close>, whatever their answers.\<close>

definition extractEvent :: "path \<Rightarrow> walk_entry list \<Rightarrow> event \<Rightarrow> bool" where
  "extractEvent dest FS ev =
     (\<exists>w \<in> set FS. \<exists>c r. materialized w \<and> wread w = Inr c \<and>
        (ev = EMkdirAll (Dir (Join dest (wpath w))) mode0755 r
         \<or> ev = EWriteFile (Join dest (wpath w)) c mode0700 r))"

text \<open>
  The calls of \<open>CueModInit\<close> on the project root \<open>p\<close>: they go to \<open>p\<close> made absolute,
  which is \<open>p\<close> where it is rooted and else is joined to a working directory the
  environment reported.
\<close>

definition initEvent :: "env \<Rightarrow> path \<Rightarrow> event \<Rightarrow> bool" where
  "initEvent e p ev =
     ((\<exists>r. ev = EGetwd r) \<or>
      (\<exists>absP. (if isAbs p then absP = p
               else (\<exists>t wd. getwd_r e t = Inr wd \<and> absP = filepath_Join wd (elems p))) \<and>
         ((\<exists>r. ev = EMkdirAll (Join absP [''cue.mod'']) mode0755 r)
          \<or> (\<exists>r. ev = EStat (Join absP [''cue.mod'', ''module.cue'']) r)
          \<or> (\<exists>c r. ev = EWriteFile (Join absP [''cue.mod'', ''module.cue'']) c mode0600 r)
          \<or> (\<exists>r. ev = EMkdir (Join absP [''cue.mod'', ''pkg'']) mode0755 r))))"

text \<open>
  The calls of the loop of \<open>Vendor\<close> for the module \<open>m\<close>, past the probe of its directory.
\<close>

definition moduleCall :: "build \<Rightarrow> path \<Rightarrow> path \<Rightarrow> string \<Rightarrow> event \<Rightarrow> bool" where
  "moduleCall b cuePkgDir unpackDir m ev =
     ((\<exists>r. Version b \<noteq> DevelopmentVersion b \<and>
            ev = EWriteFile (Join (Join unpackDir [m]) versionFilePath) (Version b) mode0600 r)
      \<or> (\<exists>r. ev = ERemoveAll (path_suffix (Join cuePkgDir [m]) ''.old'') r)
      \<or> (\<exists>r. ev = ERename (Join cuePkgDir [m]) (path_suffix (Join cuePkgDir [m]) ''.old'') r)
      \<or> (\<exists>r. ev = ERename (Join unpackDir [m]) (Join cuePkgDir [m]) r))"

text \<open>
  The calls of the loop and of the deferred removals of the backups: the probe of each
  module's directory, and the rest only for a module whose probe did not always show a
  symlink.
\<close>

definition loopEvent ::
  "build \<Rightarrow> env \<Rightarrow> path \<Rightarrow> path \<Rightarrow> (string \<times> 'v) list \<Rightarrow> event \<Rightarrow> bool" where
  "loopEvent b e cuePkgDir unpackDir order ev =
     (\<exists>m \<in> fst ` set order.
        (\<exists>r. ev = ELstat (Join cuePkgDir [m]) r)
        \<or> ((\<exists>t. lstat_r e t (Join cuePkgDir [m]) \<noteq> Inr Symlink)
            \<and> moduleCall b cuePkgDir unpackDir m ev))"

text \<open>The calls between the lock and the creation of the staging directory.\<close>

definition preStageEvent :: "env \<Rightarrow> path \<Rightarrow> path \<Rightarrow> event \<Rightarrow> bool" where
  "preStageEvent e p cuePkgDir ev =
     (initEvent e p ev
      \<or> (\<exists>r. ev = EReadFile (Join cuePkgDir [''.gitignore'']) r)
      \<or> (\<exists>r. ev = ERemove (Join cuePkgDir [''.gitignore'']) r)
      \<or> (\<exists>c r. ev = EWriteFile (Join cuePkgDir [''.gitattributes'']) c mode0600 r)
      \<or> (\<exists>err. ev = EMkdirTemp cuePkgDir ''vendor-*'' (Inl err)))"

text \<open>The calls while the staging directory \<open>unpackDir\<close> exists.\<close>

definition stagedEvent ::
  "build \<Rightarrow> walk_entry list \<Rightarrow> (string \<times> 'v) list \<Rightarrow> env \<Rightarrow> path \<Rightarrow> path \<Rightarrow> event \<Rightarrow> bool" where
  "stagedEvent b FS order e cuePkgDir unpackDir ev =
     (extractEvent unpackDir FS ev \<or> loopEvent b e cuePkgDir unpackDir order ev)"

text \<open>
  The calls of \<open>Vendor\<close> under the lock: either no staging directory is created, or one
  is, and its removal is the last call.
\<close>

definition lockedTrace ::
  "build \<Rightarrow> walk_entry list \<Rightarrow> (string \<times> 'v) list \<Rightarrow> env \<Rightarrow> path \<Rightarrow> path \<Rightarrow> transcript \<Rightarrow> bool" where
  "lockedTrace b FS order e p cuePkgDir ts =
     (list_all (preStageEvent e p cuePkgDir) ts
      \<or> (\<exists>ts1 rnd ts2 r.
            ts = ts1 @ [EMkdirTemp cuePkgDir ''vendor-*'' (Inr rnd)] @ ts2
                   @ [ERemoveAll (Join cuePkgDir [''vendor-'' @ rnd]) r]
            \<and> list_all (preStageEvent e p cuePkgDir) ts1
            \<and> list_all (stagedEvent b FS order e cuePkgDir (Join cuePkgDir [''vendor-'' @ rnd])) ts2))"

text \<open>
  The calls of \<open>Vendor\<close> on the project root \<open>d\<close>: it stops at the directory or at the
  lock, or it takes the lock and its last two calls release the lock and remove its file.
\<close>

definition vendorTrace ::
  "build \<Rightarrow> walk_entry list \<Rightarrow> (string \<times> 'v) list \<Rightarrow> env \<Rightarrow> path \<Rightarrow> transcript \<Rightarrow> bool" where
  "vendorTrace b FS order e d ts =
     (let cuePkgDir = Join d [''cue.mod'', ''pkg''];
          lockFile = Join cuePkgDir [lockFilePath]
      in (\<exists>err. ts = [EMkdirAll cuePkgDir mode0755 (Some err)])
         \<or> (\<exists>err. ts = [EMkdirAll cuePkgDir mode0755 None, ELock lockFile (Some err)])
         \<or> (\<exists>ts1 r1 r2.
               ts = [EMkdirAll cuePkgDir mode0755 None, ELock lockFile None] @ ts1
                      @ [EUnlock lockFile r1, ERemove lockFile r2]
               \<and> lockedTrace b FS order e d cuePkgDir ts1))"

text \<open>
  A write of a version marker: a write to a path that ends in \<open>cue.mod/version.txt\<close>; and
  one for the module \<open>m\<close>, where \<open>m\<close> comes right before.
\<close>

fun isMarkerWrite :: "event \<Rightarrow> bool" where
  "isMarkerWrite (EWriteFile q c md r) = suffix versionFilePath (elems q)"
| "isMarkerWrite _ = False"

fun markerWriteFor :: "string \<Rightarrow> event \<Rightarrow> bool" where
  "markerWriteFor m (EWriteFile q c md r) = suffix (m # versionFilePath) (elems q)"
| "markerWriteFor m _ = False"

text \<open>
  The calls of the loop of \<open>EnsureCompatibility\<close>: the probe of each module's directory,
  and the read of its marker only for a module whose probe did not always show a symlink.
\<close>

definition checkEvent :: "env \<Rightarrow> path \<Rightarrow> (string \<times> 'v) list \<Rightarrow> event \<Rightarrow> bool" where
  "checkEvent e cuePkgDir order ev =
     (\<exists>m \<in> fst ` set order.
        (\<exists>r. ev = ELstat (Join cuePkgDir [m]) r)
        \<or> ((\<exists>t. lstat_r e t (Join cuePkgDir [m]) \<noteq> Inr Symlink)
            \<and> (\<exists>r. ev = EReadFile (Join (Join cuePkgDir [m]) versionFilePath) r)))"

section \<open>Facts about paths and transcripts\<close>

lemma Join_Join [simp]: "Join (Join p xs) ys = Join p (xs @ ys)"
  by (cases p) simp

lemma extends_append [simp]: "extends Q t (t @ ts) = list_all Q ts"
  by (auto simp: extends_def)

lemma extends_refl [simp]: "extends Q t t"
  using extends_append [of Q t "[]"] by simp

lemma extends_trans: "extends Q t t1 \<Longrightarrow> extends Q t1 t2 \<Longrightarrow> extends Q t t2"
  by (auto simp: extends_def)

lemma extends_mono: "extends Q t t' \<Longrightarrow> (\<And>ev. Q ev \<Longrightarrow> R ev) \<Longrightarrow> extends R t t'"
  by (auto simp: extends_def list_all_iff)

section \<open>The calls of each step of \<open>Vendor\<close>\<close>

subsection \<open>extractModules\<close>

lemma extractEntry_extends:
  "w \<in> set FS \<Longrightarrow> extends (extractEvent dest FS) t (snd (extractEntry e dest w t))"
  by (auto simp: extractEntry_def extractEvent_def materialized_def os_MkdirAll_def os_WriteFile_def
        Let_def split: option.splits sum.splits)

lemma extractModules_extends_aux:
  "set ws \<subseteq> set FS \<Longrightarrow> extends (extractEvent dest FS) t (snd (extractModules e dest ws t))"
proof (induction ws arbitrary: t)
  case Nil
  then show ?case by simp
next
  case (Cons w ws)
  have 1: "extends (extractEvent dest FS) t (snd (extractEntry e dest w t))"
    using Cons.prems by (intro extractEntry_extends) simp
  have 2: "extends (extractEvent dest FS) (snd (extractEntry e dest w t))
             (snd (extractModules e dest ws (snd (extractEntry e dest w t))))"
    using Cons.prems by (intro Cons.IH) simp
  show ?case
    using 1 extends_trans [OF 1 2]
    by (cases "extractEntry e dest w t") (auto split: option.splits)
qed

lemma extractModules_extends:
  "extends (extractEvent dest FS) t (snd (extractModules e dest FS t))"
  by (rule extractModules_extends_aux) simp

subsection \<open>CueModInit\<close>

lemma initEvent_Getwd: "initEvent e p (EGetwd r)"
  by (simp add: initEvent_def)

lemma initEvent_calls:
  assumes "if isAbs p then absP = p
           else (\<exists>t wd. getwd_r e t = Inr wd \<and> absP = filepath_Join wd (elems p))"
  shows "initEvent e p (EMkdirAll (Join absP [''cue.mod'']) mode0755 r1)"
    and "initEvent e p (EStat (Join absP [''cue.mod'', ''module.cue'']) r2)"
    and "initEvent e p (EWriteFile (Join absP [''cue.mod'', ''module.cue'']) c mode0600 r3)"
    and "initEvent e p (EMkdir (Join absP [''cue.mod'', ''pkg'']) mode0755 r4)"
  using assms unfolding initEvent_def by blast+

lemma CueModInit_from_abs:
  assumes "if isAbs p then absP = p
           else (\<exists>t wd. getwd_r e t = Inr wd \<and> absP = filepath_Join wd (elems p))"
  shows "extends (initEvent e p) t
     (snd (let modDir = Join absP [''cue.mod''] in
           (case os_MkdirAll e modDir mode0755 t of (r2, t2) \<Rightarrow>
              if r2 \<noteq> None \<and> r2 \<noteq> Some ErrExist then (r2, t2)
              else
                (let modFile = Join modDir [''module.cue''] in
                 (case os_Stat e modFile t2 of (st, t3) \<Rightarrow>
                    (case (case st of
                             Inl _ \<Rightarrow>
                               os_WriteFile e modFile
                                 (''module: '' @ [CHR 0x22] @ m @ [CHR 0x22]) mode0600 t3
                           | Inr _ \<Rightarrow> (None, t3)) of
                       (Some err, t4) \<Rightarrow> (Some err, t4)
                     | (None, t4) \<Rightarrow>
                         (case os_Mkdir e (Join modDir [''pkg'']) mode0755 t4 of (r5, t5) \<Rightarrow>
                            if r5 \<noteq> None \<and> r5 \<noteq> Some ErrExist then (r5, t5)
                            else (None, t5))))))))"
  by (simp add: initEvent_calls [OF assms] os_MkdirAll_def os_Stat_def os_WriteFile_def os_Mkdir_def
        Let_def split: option.splits sum.splits)

lemma CueModInit_extends: "extends (initEvent e p) t (snd (CueModInit e p m t))"
proof (cases "isAbs p")
  case True
  then show ?thesis
    using CueModInit_from_abs [of p p e t m]
    by (simp add: CueModInit_def filepath_Abs_def)
next
  case False
  show ?thesis
  proof (cases "getwd_r e t")
    case (Inl err)
    then show ?thesis
      using False by (simp add: CueModInit_def filepath_Abs_def os_Getwd_def initEvent_Getwd)
  next
    case (Inr wd)
    have 1: "extends (initEvent e p) t (t @ [EGetwd (Inr wd)])" by (simp add: initEvent_Getwd)
    have made: "if isAbs p then filepath_Join wd (elems p) = p
                else (\<exists>t w. getwd_r e t = Inr w \<and> filepath_Join wd (elems p) = filepath_Join w (elems p))"
      using False Inr by auto
    have 2: "extends (initEvent e p) (t @ [EGetwd (Inr wd)]) (snd (CueModInit e p m t))"
      using CueModInit_from_abs [OF made, of "t @ [EGetwd (Inr wd)]" m] False Inr
      by (simp add: CueModInit_def filepath_Abs_def os_Getwd_def)
    show ?thesis by (rule extends_trans [OF 1 2])
  qed
qed

subsection \<open>The loop\<close>

lemma moduleCall_calls:
  shows "Version b \<noteq> DevelopmentVersion b \<Longrightarrow>
           moduleCall b pkg u m (EWriteFile (Join (Join u [m]) versionFilePath) (Version b) mode0600 r1)"
    and "moduleCall b pkg u m (ERemoveAll (path_suffix (Join pkg [m]) ''.old'') r2)"
    and "moduleCall b pkg u m (ERename (Join pkg [m]) (path_suffix (Join pkg [m]) ''.old'') r3)"
    and "moduleCall b pkg u m (ERename (Join u [m]) (Join pkg [m]) r4)"
  unfolding moduleCall_def by blast+

lemma vendorModule_extends:
  assumes lst: "\<And>r. Q (ELstat (Join pkg [m]) r)"
      and call: "\<And>ev. lstat_r e t (Join pkg [m]) \<noteq> Inr Symlink \<Longrightarrow> moduleCall b pkg u m ev \<Longrightarrow> Q ev"
      and ds: "\<forall>d \<in> set ds. \<forall>r. Q (ERemoveAll d r)"
  shows "extends Q t (snd (snd (vendorModule b e pkg u m ds t)))
         \<and> (\<forall>d \<in> set (fst (snd (vendorModule b e pkg u m ds t))). \<forall>r. Q (ERemoveAll d r))"
proof (cases "lstat_r e t (Join pkg [m]) = Inr Symlink")
  case True
  then show ?thesis using lst ds by (simp add: vendorModule_def os_Lstat_def Let_def)
next
  case False
  note c = call [OF False]
  have cw: "\<And>r. Version b \<noteq> DevelopmentVersion b \<Longrightarrow>
              Q (EWriteFile (Join (Join u [m]) versionFilePath) (Version b) mode0600 r)"
    by (rule c) (rule moduleCall_calls)
  have cr: "\<And>r. Q (ERemoveAll (path_suffix (Join pkg [m]) ''.old'') r)"
    by (rule c) (rule moduleCall_calls)
  have cn1: "\<And>r. Q (ERename (Join pkg [m]) (path_suffix (Join pkg [m]) ''.old'') r)"
    by (rule c) (rule moduleCall_calls)
  have cn2: "\<And>r. Q (ERename (Join u [m]) (Join pkg [m]) r)"
    by (rule c) (rule moduleCall_calls)
  show ?thesis
    using False lst cw cr cn1 cn2 ds
    by (simp add: vendorModule_def os_Lstat_def os_WriteFile_def os_RemoveAll_def os_Rename_def Let_def
          split: option.splits prod.splits del: Join_Join)
qed

lemma loopEvent_Lstat: "m \<in> fst ` set order \<Longrightarrow> loopEvent b e pkg u order (ELstat (Join pkg [m]) r)"
  unfolding loopEvent_def by blast

lemma loopEvent_call:
  "m \<in> fst ` set order \<Longrightarrow> lstat_r e t (Join pkg [m]) \<noteq> Inr Symlink \<Longrightarrow>
   moduleCall b pkg u m ev \<Longrightarrow> loopEvent b e pkg u order ev"
  unfolding loopEvent_def by blast

lemma vendorModules_extends_aux:
  assumes "set ms \<subseteq> set order"
      and "\<forall>d \<in> set ds. \<forall>r. loopEvent b e pkg u order (ERemoveAll d r)"
  shows "extends (loopEvent b e pkg u order) t (snd (snd (vendorModules b e pkg u ms ds t)))
         \<and> (\<forall>d \<in> set (fst (snd (vendorModules b e pkg u ms ds t))). \<forall>r.
               loopEvent b e pkg u order (ERemoveAll d r))"
  using assms
proof (induction ms arbitrary: ds t)
  case Nil
  then show ?case by simp
next
  case (Cons entry ms)
  let ?Q = "loopEvent b e pkg u order"
  have mem: "fst entry \<in> fst ` set order" using Cons.prems(1) by auto
  have sub: "set ms \<subseteq> set order" using Cons.prems(1) by simp
  obtain r1 ds1 t1 where body: "vendorModule b e pkg u (fst entry) ds t = (r1, ds1, t1)"
    by (cases "vendorModule b e pkg u (fst entry) ds t") auto
  have 1: "extends ?Q t t1 \<and> (\<forall>d \<in> set ds1. \<forall>r. ?Q (ERemoveAll d r))"
    using vendorModule_extends [of ?Q pkg "fst entry" e t b u ds,
            OF loopEvent_Lstat [OF mem] loopEvent_call [OF mem] Cons.prems(2)] body
    by simp
  show ?case
  proof (cases r1)
    case (Some err)
    then show ?thesis using 1 body by simp
  next
    case None
    have 2: "extends ?Q t1 (snd (snd (vendorModules b e pkg u ms ds1 t1)))
         \<and> (\<forall>d \<in> set (fst (snd (vendorModules b e pkg u ms ds1 t1))). \<forall>r. ?Q (ERemoveAll d r))"
      by (rule Cons.IH [OF sub conjunct2 [OF 1]])
    show ?thesis
      using extends_trans [OF conjunct1 [OF 1] conjunct1 [OF 2]] conjunct2 [OF 2] body None
      by simp
  qed
qed

lemma removeBackups_extends:
  "\<forall>d \<in> set ds. \<forall>r. Q (ERemoveAll d r) \<Longrightarrow> extends Q t (removeBackups e ds t)"
proof (induction ds arbitrary: t)
  case Nil
  then show ?case by simp
next
  case (Cons d ds)
  have 1: "extends Q t (t @ [ERemoveAll d (removeall_r e t d)])" using Cons.prems by simp
  have 2: "extends Q (t @ [ERemoveAll d (removeall_r e t d)])
             (removeBackups e ds (t @ [ERemoveAll d (removeall_r e t d)]))"
    using Cons.prems by (intro Cons.IH) simp
  show ?case using extends_trans [OF 1 2] by (simp add: os_RemoveAll_def)
qed

lemma vendorStaged_extends:
  "extends (stagedEvent b FS order e pkg u) t (snd (vendorStaged b FS order e pkg u t))"
proof -
  let ?S = "stagedEvent b FS order e pkg u"
  let ?L = "loopEvent b e pkg u order"
  obtain r1 t1 where x: "extractModules e u FS t = (r1, t1)" by (cases "extractModules e u FS t")
  have 1: "extends ?S t t1"
    using extractModules_extends [of u FS t e] x
    by (auto elim!: extends_mono simp: stagedEvent_def)
  show ?thesis
  proof (cases r1)
    case (Some err)
    then show ?thesis using 1 x by (simp add: vendorStaged_def)
  next
    case None
    obtain r2 ds t2 where v: "vendorModules b e pkg u order [] t1 = (r2, ds, t2)"
      by (cases "vendorModules b e pkg u order [] t1") auto
    have l: "extends ?L t1 t2 \<and> (\<forall>d \<in> set ds. \<forall>r. ?L (ERemoveAll d r))"
      using vendorModules_extends_aux [of order order "[]" b e pkg u t1] v by simp
    have 2: "extends ?S t1 t2"
      using l by (auto elim!: extends_mono simp: stagedEvent_def)
    have 3: "extends ?S t2 (removeBackups e ds t2)"
      using l by (intro removeBackups_extends) (auto simp: stagedEvent_def)
    show ?thesis
      using extends_trans [OF 1 extends_trans [OF 2 3]] x v None by (simp add: vendorStaged_def)
  qed
qed

subsection \<open>Under the lock\<close>

lemma preStage_init: "initEvent e p ev \<Longrightarrow> preStageEvent e p pkg ev"
  by (simp add: preStageEvent_def)

lemma removeGitignore_extends: "extends (preStageEvent e p pkg) t (removeGitignore e pkg t)"
  by (simp add: removeGitignore_def os_ReadFile_def os_Remove_def preStageEvent_def Let_def
        split: sum.splits)

lemma vendorLocked_trace:
  "\<exists>ts. snd (vendorLocked b FS order e p pkg t) = t @ ts \<and> lockedTrace b FS order e p pkg ts"
proof -
  let ?P = "preStageEvent e p pkg"
  obtain r1 t1 where c0: "CueModInit e p [] t = (r1, t1)" by (cases "CueModInit e p [] t")
  have "extends ?P t t1"
    using CueModInit_extends [of e p t "[]"] c0 by (auto elim!: extends_mono simp: preStage_init)
  then obtain ts1 where t1: "t1 = t @ ts1" and p1: "list_all ?P ts1" by (auto simp: extends_def)
  have c: "CueModInit e p [] t = (r1, t @ ts1)" using c0 t1 by simp
  show ?thesis
  proof (cases r1)
    case (Some err)
    then show ?thesis using c p1 by (simp add: vendorLocked_def lockedTrace_def)
  next
    case None
    obtain ts2 where g: "removeGitignore e pkg (t @ ts1) = t @ ts1 @ ts2" and p2: "list_all ?P ts2"
      using removeGitignore_extends [of e p pkg "t @ ts1"] by (auto simp: extends_def)
    let ?t2 = "t @ ts1 @ ts2"
    let ?ga = "Join pkg [''.gitattributes'']"
    let ?txt = "''# generated by dagger'' @ [CHR 0x0A] @ ''** linguist-generated=true'' @ [CHR 0x0A]"
    let ?w = "EWriteFile ?ga ?txt mode0600 (writefile_r e ?t2 ?ga ?txt mode0600)"
    have pw: "?P ?w" by (simp add: preStageEvent_def)
    show ?thesis
    proof (cases "writefile_r e ?t2 ?ga ?txt mode0600")
      case (Some err)
      have "snd (vendorLocked b FS order e p pkg t) = t @ (ts1 @ ts2 @ [?w])"
        using c None Some g
        by (simp add: vendorLocked_def Let_def os_WriteFile_def)
      moreover have "list_all ?P (ts1 @ ts2 @ [?w])" using p1 p2 pw by simp
      ultimately show ?thesis unfolding lockedTrace_def by blast
    next
      case wnone: None
      let ?t3 = "?t2 @ [?w]"
      show ?thesis
      proof (cases "mkdirtemp_r e ?t3 pkg ''vendor-*''")
        case (Inl err)
        let ?m = "EMkdirTemp pkg ''vendor-*'' (Inl err)"
        have pm: "?P ?m" by (simp add: preStageEvent_def)
        have "snd (vendorLocked b FS order e p pkg t) = t @ (ts1 @ ts2 @ [?w, ?m])"
          using c None wnone Inl g
          by (simp add: vendorLocked_def Let_def os_WriteFile_def os_MkdirTemp_def)
        moreover have "list_all ?P (ts1 @ ts2 @ [?w, ?m])" using p1 p2 pw pm by simp
        ultimately show ?thesis unfolding lockedTrace_def by blast
      next
        case (Inr rnd)
        let ?u = "Join pkg [''vendor-'' @ rnd]"
        let ?m = "EMkdirTemp pkg ''vendor-*'' (Inr rnd)"
        let ?t4 = "?t3 @ [?m]"
        obtain res t5 where s0: "vendorStaged b FS order e pkg ?u ?t4 = (res, t5)"
          by (cases "vendorStaged b FS order e pkg ?u ?t4")
        have "extends (stagedEvent b FS order e pkg ?u) ?t4 t5"
          using vendorStaged_extends [of b FS order e pkg ?u ?t4] s0 by simp
        then obtain ts5 where t5: "t5 = ?t4 @ ts5"
            and p5: "list_all (stagedEvent b FS order e pkg ?u) ts5"
          by (auto simp: extends_def)
        have s: "vendorStaged b FS order e pkg ?u ?t4 = (res, ?t4 @ ts5)" using s0 t5 by simp
        have "snd (vendorLocked b FS order e p pkg t)
                = t @ ((ts1 @ ts2 @ [?w]) @ [?m] @ ts5
                        @ [ERemoveAll ?u (removeall_r e (?t4 @ ts5) ?u)])"
          using c None wnone Inr g s
          by (simp add: vendorLocked_def Let_def os_WriteFile_def os_MkdirTemp_def os_RemoveAll_def)
        moreover have "list_all ?P (ts1 @ ts2 @ [?w])" using p1 p2 pw by simp
        ultimately show ?thesis using p5 unfolding lockedTrace_def by blast
      qed
    qed
  qed
qed

subsection \<open>The whole run\<close>

lemma Vendor_trace:
  assumes "projectRoot e p t = Some (d, t0)"
  shows "\<exists>res ts. Vendor b FS order e p t = Some (res, t0 @ ts) \<and> vendorTrace b FS order e d ts"
proof -
  let ?pkg = "Join d [''cue.mod'', ''pkg'']"
  let ?lf = "Join ?pkg [lockFilePath]"
  let ?mk = "EMkdirAll ?pkg mode0755 (mkdirall_r e t0 ?pkg mode0755)"
  show ?thesis
  proof (cases "mkdirall_r e t0 ?pkg mode0755")
    case (Some err)
    then show ?thesis using assms
      by (simp add: Vendor_def vendorTrace_def os_MkdirAll_def Let_def)
  next
    case None
    let ?t1 = "t0 @ [EMkdirAll ?pkg mode0755 None]"
    show ?thesis
    proof (cases "lock_r e ?t1 ?lf")
      case (Some err)
      then show ?thesis using assms None
        by (simp add: Vendor_def vendorTrace_def os_MkdirAll_def flock_Lock_def Let_def)
    next
      case lnone: None
      let ?t2 = "?t1 @ [ELock ?lf None]"
      obtain res t3 where v0: "vendorLocked b FS order e d ?pkg ?t2 = (res, t3)"
        by (cases "vendorLocked b FS order e d ?pkg ?t2")
      obtain ts where t3: "t3 = ?t2 @ ts" and lt: "lockedTrace b FS order e d ?pkg ts"
        using vendorLocked_trace [of b FS order e d ?pkg ?t2] v0 by auto
      have v: "vendorLocked b FS order e d ?pkg ?t2 = (res, ?t2 @ ts)" using v0 t3 by simp
      have "Vendor b FS order e p t =
              Some (res, t0 @ ([EMkdirAll ?pkg mode0755 None, ELock ?lf None] @ ts
                @ [EUnlock ?lf (unlock_r e (?t2 @ ts) ?lf),
                   ERemove ?lf (remove_r e (?t2 @ ts @ [EUnlock ?lf (unlock_r e (?t2 @ ts) ?lf)]) ?lf)]))"
        using assms None lnone v
        by (simp add: Vendor_def os_MkdirAll_def flock_Lock_def flock_Unlock_def os_Remove_def Let_def)
      then show ?thesis using lt unfolding vendorTrace_def Let_def by blast
    qed
  qed
qed

subsection \<open>The search for the project root only probes\<close>

lemma GetCueModParent_loop_extends:
  "GetCueModParent_loop e cwd parentDir t = Some y \<Longrightarrow> extends isProbe t (snd y)"
  apply (erule GetCueModParent_loop.raw_induct
           [where P = "\<lambda>e cwd parentDir t y. extends isProbe t (snd y)", rotated])
  subgoal premises prems for loop e cwd parentDir t y
    using prems(2)
      prems(1) [of e cwd "Dir parentDir"
        "t @ [EStat (Join parentDir [''cue.mod'']) (stat_r e t (Join parentDir [''cue.mod'']))]" y]
    by (auto simp: os_Stat_def extends_def split: if_splits)
  done

lemma projectRoot_probes:
  "projectRoot e p t = Some (d, t0) \<Longrightarrow> extends isProbe t t0"
proof (cases p)
  case None
  assume a: "projectRoot e p t = Some (d, t0)"
  let ?g = "EGetwd (getwd_r e t)"
  from a None obtain found where
    g: "GetCueModParent e [] t = Some ((d, found), t0)"
    by (auto simp: projectRoot_def)
  then obtain cwd where "GetCueModParent_loop e cwd cwd (t @ [?g]) = Some ((d, found), t0)"
    by (auto simp: GetCueModParent_def os_Getwd_def Let_def)
  from GetCueModParent_loop_extends [OF this] have "extends isProbe (t @ [?g]) t0" by simp
  moreover have "extends isProbe t (t @ [?g])" by simp
  ultimately show ?thesis by (rule extends_trans [rotated])
next
  case (Some q)
  assume "projectRoot e p t = Some (d, t0)"
  then show ?thesis using Some by (simp add: projectRoot_def)
qed

lemma isProbe_readOnly: "isProbe ev \<Longrightarrow> readOnly ev"
  by (cases ev) simp_all

section \<open>The loop of \<open>GetCueModParent\<close>\<close>

lemma loop_found:
  "\<not> isNotExist (stat_r e t (Join d [''cue.mod''])) \<Longrightarrow>
   GetCueModParent_loop e cwd d t =
     Some ((d, True), t @ [EStat (Join d [''cue.mod'']) (stat_r e t (Join d [''cue.mod'']))])"
  by (subst GetCueModParent_loop.simps) (simp add: os_Stat_def)

lemma loop_root:
  "isNotExist (stat_r e t (Join d [''cue.mod''])) \<Longrightarrow> Dir d = rootPath \<Longrightarrow>
   GetCueModParent_loop e cwd d t =
     Some ((cwd, False), t @ [EStat (Join d [''cue.mod'']) (stat_r e t (Join d [''cue.mod'']))])"
  by (subst GetCueModParent_loop.simps) (simp add: os_Stat_def)

lemma loop_step:
  "isNotExist (stat_r e t (Join d [''cue.mod''])) \<Longrightarrow> Dir d \<noteq> rootPath \<Longrightarrow>
   GetCueModParent_loop e cwd d t =
     GetCueModParent_loop e cwd (Dir d)
       (t @ [EStat (Join d [''cue.mod'']) (stat_r e t (Join d [''cue.mod'']))])"
  by (subst GetCueModParent_loop.simps) (simp add: os_Stat_def)

lemma loop_climb_found:
  assumes "\<forall>ds' t. ds' \<noteq> [] \<and> prefix ds' ds \<longrightarrow>
             stat_r e t (Path a (cs @ ds' @ [''cue.mod''])) = Inl ErrNotExist"
      and "\<forall>t. \<not> isNotExist (stat_r e t (Path a (cs @ [''cue.mod''])))"
      and "Path a cs \<noteq> rootPath \<or> ds = []"
  shows "\<exists>ts. GetCueModParent_loop e cwd (Path a (cs @ ds)) t = Some ((Path a cs, True), t @ ts)
           \<and> list_all readOnly ts"
  using assms
proof (induction ds arbitrary: t rule: rev_induct)
  case Nil
  then show ?case using loop_found [of e t "Path a cs" cwd] by simp
next
  case (snoc x ds)
  let ?d = "Path a (cs @ ds @ [x])"
  let ?ev = "EStat (Join ?d [''cue.mod'']) (stat_r e t (Join ?d [''cue.mod'']))"
  have ne: "stat_r e t (Join ?d [''cue.mod'']) = Inl ErrNotExist"
    using snoc.prems(1) [rule_format, of "ds @ [x]" t] by simp
  have up: "Dir ?d = Path a (cs @ ds)" by (simp add: butlast_append)
  have "Path a (cs @ ds) \<noteq> rootPath" using snoc.prems(3) by (auto simp: rootPath_def)
  then have nr: "Dir ?d \<noteq> rootPath" unfolding up .
  have st: "GetCueModParent_loop e cwd ?d t = GetCueModParent_loop e cwd (Path a (cs @ ds)) (t @ [?ev])"
    using loop_step [of e t ?d cwd] ne nr up by simp
  have p1: "\<forall>ds' t. ds' \<noteq> [] \<and> prefix ds' ds \<longrightarrow>
             stat_r e t (Path a (cs @ ds' @ [''cue.mod''])) = Inl ErrNotExist"
    using snoc.prems(1) by (auto simp: prefix_def)
  have p3: "Path a cs \<noteq> rootPath \<or> ds = []" using snoc.prems(3) by simp
  from snoc.IH [OF p1 snoc.prems(2) p3, of "t @ [?ev]"] obtain ts where
    "GetCueModParent_loop e cwd (Path a (cs @ ds)) (t @ [?ev]) = Some ((Path a cs, True), (t @ [?ev]) @ ts)"
    "list_all readOnly ts" by blast
  then show ?case using st by (intro exI [of _ "?ev # ts"]) simp
qed

lemma loop_climb_root:
  assumes "\<forall>ds t. prefix ds cs \<longrightarrow> stat_r e t (Path True (ds @ [''cue.mod''])) = Inl ErrNotExist"
  shows "\<exists>ts. GetCueModParent_loop e cwd (Path True cs) t = Some ((cwd, False), t @ ts)
           \<and> list_all readOnly ts"
  using assms
proof (induction cs arbitrary: t rule: rev_induct)
  case Nil
  have "stat_r e t (Join (Path True []) [''cue.mod'']) = Inl ErrNotExist" using Nil by simp
  then show ?case using loop_root [of e t "Path True []" cwd] by (simp add: rootPath_def)
next
  case (snoc x cs)
  let ?d = "Path True (cs @ [x])"
  let ?ev = "EStat (Join ?d [''cue.mod'']) (stat_r e t (Join ?d [''cue.mod'']))"
  have ne: "stat_r e t (Join ?d [''cue.mod'']) = Inl ErrNotExist"
    using snoc.prems by simp
  show ?case
  proof (cases "cs = []")
    case True
    then show ?thesis using loop_root [of e t ?d cwd] ne by (simp add: rootPath_def)
  next
    case False
    then have nr: "Dir ?d \<noteq> rootPath" by (simp add: rootPath_def)
    have st: "GetCueModParent_loop e cwd ?d t = GetCueModParent_loop e cwd (Path True cs) (t @ [?ev])"
      using loop_step [of e t ?d cwd] ne nr by simp
    have p1: "\<forall>ds t. prefix ds cs \<longrightarrow> stat_r e t (Path True (ds @ [''cue.mod''])) = Inl ErrNotExist"
      using snoc.prems by (auto simp: prefix_def)
    from snoc.IH [OF p1, of "t @ [?ev]"] obtain ts where
      "GetCueModParent_loop e cwd (Path True cs) (t @ [?ev]) = Some ((cwd, False), (t @ [?ev]) @ ts)"
      "list_all readOnly ts" by blast
    then show ?thesis using st by (intro exI [of _ "?ev # ts"]) simp
  qed
qed

section \<open>The loop of \<open>EnsureCompatibility\<close>\<close>

lemma checkModules_append:
  "checkModules lib e dv dir pre t = (None, t1) \<Longrightarrow>
   checkModules lib e dv dir (pre @ post) t = checkModules lib e dv dir post t1"
  by (induction pre arbitrary: t) (auto split: prod.splits option.splits)

lemma EnsureCompatibility_first_failure:
  assumes "Version b \<noteq> DevelopmentVersion b"
      and "gvNewVersion lib (Version b) = Inr tool"
      and "projectRoot e p t = Some (d, t0)"
      and "checkModules lib e tool (Join d [''cue.mod'', ''pkg'']) pre t0 = (None, t1)"
      and "checkModule lib e tool (Join d [''cue.mod'', ''pkg'']) entry t1 = (Some err, t2)"
  shows "EnsureCompatibility lib b (pre @ entry # post) e p t = Some (Some err, t2)"
  using assms by (simp add: EnsureCompatibility_def checkModules_append)

lemma checkModule_versions:
  assumes "lstat_r e t (Join dir [m]) \<noteq> Inr Symlink"
      and "readfile_r e (t @ [ELstat (Join dir [m]) (lstat_r e t (Join dir [m]))])
             (Join (Join dir [m]) versionFilePath) = Inr data"
      and "gvNewVersion lib (TrimSpace data) = Inr v"
  shows "fst (checkModule lib e tool dir (m, mn) t) =
           (if gvLessThan lib v mn then Some (IncompatibleModule m v mn)
            else if gvGreaterThan lib v tool then Some (NeedsUpgrade v)
            else None)"
  using assms by (simp add: checkModule_def os_Lstat_def os_ReadFile_def Let_def)

lemma checkModule_missing:
  assumes "lstat_r e t (Join dir [m]) \<noteq> Inr Symlink"
      and "readfile_r e (t @ [ELstat (Join dir [m]) (lstat_r e t (Join dir [m]))])
             (Join (Join dir [m]) versionFilePath) = Inl ErrNotExist"
  shows "fst (checkModule lib e tool dir (m, mn) t) = Some (MissingVersionMarker m mn)"
  using assms by (simp add: checkModule_def os_Lstat_def os_ReadFile_def Let_def)

lemma checkModule_no_parse_error:
  assumes "\<forall>t. readfile_r e t vf = Inl ErrNotExist"
  shows "fst (checkModule lib e tool dir entry t) \<noteq> Some (MalformedVersion vf s)"
  using assms
  by (cases entry) (auto simp: checkModule_def os_Lstat_def os_ReadFile_def Let_def split: sum.splits)

lemma checkModules_no_parse_error:
  assumes "\<forall>t. readfile_r e t vf = Inl ErrNotExist"
  shows "fst (checkModules lib e tool dir order t) \<noteq> Some (MalformedVersion vf s)"
proof (induction order arbitrary: t)
  case Nil
  then show ?case by simp
next
  case (Cons entry rest)
  show ?case
    using checkModule_no_parse_error [OF assms, of lib tool dir entry t s] Cons.IH
    by (cases "checkModule lib e tool dir entry t") (auto split: option.splits)
qed


section \<open>More facts about paths\<close>

lemma Join_Nil [simp]: "Join p [] = p"
  by (cases p) simp

lemma elems_Join [simp]: "elems (Join p es) = elems p @ es"
  by (cases p) simp

lemma isAbs_Join [simp]: "isAbs (Join p es) = isAbs p"
  by (cases p) simp

lemma below_Join [simp]: "below (Join p xs) (Join p ys) = prefix xs ys"
  by (cases p) simp

lemma below_Join_left [simp]: "below (Join p xs) p = (xs = [])"
  using below_Join [of p xs "[]"] by simp

lemma Dir_Join: "es \<noteq> [] \<Longrightarrow> Dir (Join p es) = Join p (butlast es)"
  by (cases p) (simp add: butlast_append)

lemma path_suffix_Join: "es \<noteq> [] \<Longrightarrow> path_suffix (Join p es) s = Join p (butlast es @ [last es @ s])"
proof (cases p)
  case (Path a cs)
  assume "es \<noteq> []"
  then have ne: "cs @ es \<noteq> []" by simp
  then obtain c cs' where c: "cs @ es = c # cs'" by (cases "cs @ es") auto
  have "path_suffix (Path a (cs @ es)) s = Path a (butlast (cs @ es) @ [last (cs @ es) @ s])"
    unfolding c by simp
  then show ?thesis using Path \<open>es \<noteq> []\<close> by (simp add: butlast_append)
qed

lemma Join_eq [simp]: "(Join p xs = Join p ys) = (xs = ys)"
  by (cases p) simp

lemma below_abs_rel: "isAbs p \<noteq> isAbs q \<Longrightarrow> \<not> below p q"
  by (cases p; cases q) auto

section \<open>The calls of the loop of \<open>EnsureCompatibility\<close>\<close>

lemma checkModule_extends:
  "fst entry \<in> fst ` set order \<Longrightarrow>
   extends (checkEvent e pkg order) t (snd (checkModule lib e tool pkg entry t))"
proof (cases "lstat_r e t (Join pkg [fst entry]) = Inr Symlink")
  case True
  assume "fst entry \<in> fst ` set order"
  then have "checkEvent e pkg order (ELstat (Join pkg [fst entry]) (Inr Symlink))"
    unfolding checkEvent_def by blast
  then show ?thesis using True
    by (cases entry) (simp add: checkModule_def os_Lstat_def Let_def)
next
  case False
  assume mem: "fst entry \<in> fst ` set order"
  have 1: "\<And>r. checkEvent e pkg order (ELstat (Join pkg [fst entry]) r)"
    using mem unfolding checkEvent_def by blast
  have 2: "\<And>r. checkEvent e pkg order (EReadFile (Join (Join pkg [fst entry]) versionFilePath) r)"
    using mem False unfolding checkEvent_def by blast
  show ?thesis using False 1 2
    by (cases entry)
       (simp add: checkModule_def os_Lstat_def os_ReadFile_def Let_def split: sum.splits del: Join_Join)
qed

lemma checkModules_extends_aux:
  "set ms \<subseteq> set order \<Longrightarrow>
   extends (checkEvent e pkg order) t (snd (checkModules lib e tool pkg ms t))"
proof (induction ms arbitrary: t)
  case Nil
  then show ?case by simp
next
  case (Cons entry ms)
  have mem: "fst entry \<in> fst ` set order" using Cons.prems by auto
  obtain r1 t1 where c: "checkModule lib e tool pkg entry t = (r1, t1)"
    by (cases "checkModule lib e tool pkg entry t")
  have 1: "extends (checkEvent e pkg order) t t1"
    using checkModule_extends [OF mem, of e pkg t lib tool] c by simp
  have 2: "extends (checkEvent e pkg order) t1 (snd (checkModules lib e tool pkg ms t1))"
    using Cons.prems by (intro Cons.IH) simp
  show ?case using 1 extends_trans [OF 1 2] c by (cases r1) simp_all
qed

lemma EnsureCompatibility_trace:
  assumes "projectRoot e p t = Some (d, t0)"
  shows "\<exists>res t'. EnsureCompatibility lib b order e p t = Some (res, t')
           \<and> (t' = t \<or> extends (checkEvent e (Join d [''cue.mod'', ''pkg'']) order) t0 t')"
proof (cases "Version b = DevelopmentVersion b")
  case True
  then show ?thesis by (simp add: EnsureCompatibility_def)
next
  case False
  show ?thesis
  proof (cases "gvNewVersion lib (Version b)")
    case (Inl perr)
    then show ?thesis using False by (simp add: EnsureCompatibility_def)
  next
    case (Inr tool)
    have "extends (checkEvent e (Join d [''cue.mod'', ''pkg'']) order) t0
            (snd (checkModules lib e tool (Join d [''cue.mod'', ''pkg'']) order t0))"
      by (rule checkModules_extends_aux) simp
    then show ?thesis using False Inr assms
      by (cases "checkModules lib e tool (Join d [''cue.mod'', ''pkg'']) order t0")
         (simp add: EnsureCompatibility_def)
  qed
qed

lemma EnsureCompatibility_no_parse_error:
  assumes "\<forall>t. readfile_r e t vf = Inl ErrNotExist"
  shows "EnsureCompatibility lib b order e p t \<noteq> Some (Some (MalformedVersion vf s), t')"
proof -
  have "\<And>tool dir t0. checkModules lib e tool dir order t0 \<noteq> (Some (MalformedVersion vf s), t')"
    using checkModules_no_parse_error [OF assms] by (metis fst_conv)
  then show ?thesis
    by (auto simp: EnsureCompatibility_def split: sum.splits option.splits)
qed

section \<open>What the calls of \<open>Vendor\<close> leave alone\<close>

lemma isAbs_filepath_Join [simp]: "isAbs (filepath_Join p xs) = isAbs p"
  by (induction p xs rule: filepath_Join.induct) auto

lemma suffix_past:
  assumes "suffix ys (cs @ v # wp)" and "v \<notin> set ys"
  shows "suffix ys wp"
proof -
  have "suffix ys ((cs @ [v]) @ wp)" using assms(1) by simp
  then consider (in_wp) "suffix ys wp"
    | (across) xs where "suffix xs (cs @ [v])" "ys = xs @ wp"
    unfolding suffix_append by blast
  then show ?thesis
  proof cases
    case in_wp
    then show ?thesis .
  next
    case across
    show ?thesis
    proof (cases "xs = []")
      case True
      then show ?thesis using across(2) by simp
    next
      case False
      from across(1) obtain us where "cs @ [v] = us @ xs" unfolding suffix_def by blast
      then have "last xs = v" using False by (metis last_appendR last_snoc)
      then have "v \<in> set xs" using False last_in_set by blast
      then show ?thesis using across(2) assms(2) by simp
    qed
  qed
qed

lemma vendor_not_marker [simp]:
  "''vendor-'' @ rnd \<noteq> ''cue.mod''" "''vendor-'' @ rnd \<noteq> ''version.txt''"
  by simp_all

lemma initEvent_no_marker: "initEvent e p ev \<Longrightarrow> \<not> isMarkerWrite ev"
  by (auto simp: initEvent_def versionFilePath_def suffix_to_prefix)

lemma preStageEvent_no_marker: "preStageEvent e p pkg ev \<Longrightarrow> \<not> isMarkerWrite ev"
  using initEvent_no_marker [of e p ev]
  by (auto simp: preStageEvent_def versionFilePath_def suffix_to_prefix)

lemma extractEvent_no_marker:
  assumes "extractEvent (Join pkg [''vendor-'' @ rnd]) FS ev"
      and ships: "\<forall>w \<in> set FS. materialized w \<longrightarrow> \<not> suffix versionFilePath (wpath w)"
  shows "\<not> isMarkerWrite ev"
proof
  assume mw: "isMarkerWrite ev"
  from assms(1) mw obtain w c r where w: "w \<in> set FS" "materialized w"
      and ev: "ev = EWriteFile (Join (Join pkg [''vendor-'' @ rnd]) (wpath w)) c mode0700 r"
    unfolding extractEvent_def by auto
  have "suffix versionFilePath (elems pkg @ (''vendor-'' @ rnd) # wpath w)"
    using mw ev by simp
  then have "suffix versionFilePath (wpath w)"
    by (rule suffix_past) (simp add: versionFilePath_def)
  then show False using ships w by blast
qed

lemma loopEvent_no_marker:
  "Version b = DevelopmentVersion b \<Longrightarrow> loopEvent b e pkg u order ev \<Longrightarrow> \<not> isMarkerWrite ev"
  by (auto simp: loopEvent_def moduleCall_def)

lemma vendorTrace_no_marker:
  assumes dev: "Version b = DevelopmentVersion b"
      and ships: "\<forall>w \<in> set FS. materialized w \<longrightarrow> \<not> suffix versionFilePath (wpath w)"
      and tr: "vendorTrace b FS order e d ts"
  shows "list_all (\<lambda>ev. \<not> isMarkerWrite ev) ts"
proof -
  let ?pkg = "Join d [''cue.mod'', ''pkg'']"
  have pre: "\<And>xs. list_all (preStageEvent e d ?pkg) xs \<Longrightarrow> list_all (\<lambda>ev. \<not> isMarkerWrite ev) xs"
    by (auto simp: list_all_iff dest: preStageEvent_no_marker)
  have st: "\<And>rnd xs. list_all (stagedEvent b FS order e ?pkg (Join ?pkg [''vendor-'' @ rnd])) xs
               \<Longrightarrow> list_all (\<lambda>ev. \<not> isMarkerWrite ev) xs"
    using extractEvent_no_marker [OF _ ships] loopEvent_no_marker [OF dev]
    unfolding list_all_iff stagedEvent_def by blast
  have lk: "list_all (\<lambda>ev. \<not> isMarkerWrite ev) xs" if "lockedTrace b FS order e d ?pkg xs" for xs
  proof -
    from that consider
        (short) "list_all (preStageEvent e d ?pkg) xs"
      | (staged) ts1 rnd ts2 r where
          "xs = ts1 @ [EMkdirTemp ?pkg ''vendor-*'' (Inr rnd)] @ ts2
                  @ [ERemoveAll (Join ?pkg [''vendor-'' @ rnd]) r]"
          "list_all (preStageEvent e d ?pkg) ts1"
          "list_all (stagedEvent b FS order e ?pkg (Join ?pkg [''vendor-'' @ rnd])) ts2"
      unfolding lockedTrace_def by blast
    then show ?thesis
    proof cases
      case short
      then show ?thesis by (rule pre)
    next
      case staged
      show ?thesis using staged(1) pre [OF staged(2)] st [OF staged(3)] by simp
    qed
  qed
  show ?thesis
    using tr lk unfolding vendorTrace_def Let_def by auto
qed

subsection \<open>A symlinked module\<close>

lemma initEvent_safe:
  assumes wd: "isAbs d \<or> (\<forall>t wd. getwd_r e t = Inr wd \<longrightarrow> isAbs wd)" and ev: "initEvent e d ev"
  shows "\<not> disturbs (Join d [''cue.mod'', ''pkg'', m]) ev \<and> \<not> markerWriteFor m ev"
proof (cases "isAbs d")
  case True
  then show ?thesis using ev by (auto simp: initEvent_def versionFilePath_def suffix_to_prefix)
next
  case False
  have rel: "\<not> below (Join d [''cue.mod'', ''pkg'', m]) (Join absP xs)"
    if "getwd_r e t = Inr w" "absP = filepath_Join w (elems d)" for absP xs t w
  proof -
    have "isAbs w" using wd False that(1) by blast
    then have "isAbs (Join absP xs)" using that(2) by simp
    then show ?thesis using False by (intro below_abs_rel) simp
  qed
  show ?thesis using ev False rel
    by (auto simp: initEvent_def versionFilePath_def suffix_to_prefix)
qed

lemma preStageEvent_safe:
  assumes "isAbs d \<or> (\<forall>t wd. getwd_r e t = Inr wd \<longrightarrow> isAbs wd)"
      and "preStageEvent e d (Join d [''cue.mod'', ''pkg'']) ev"
      and "m \<notin> {''.gitignore'', ''.gitattributes'', lockFilePath}"
  shows "\<not> disturbs (Join d [''cue.mod'', ''pkg'', m]) ev \<and> \<not> markerWriteFor m ev"
  using assms(2,3) initEvent_safe [OF assms(1), of ev m]
  by (auto simp: preStageEvent_def versionFilePath_def suffix_to_prefix)

lemma extractEvent_safe:
  assumes "extractEvent (Join d [''cue.mod'', ''pkg'', ''vendor-'' @ rnd]) FS ev"
      and tmp: "\<not> prefix ''vendor-'' m"
      and ships: "\<forall>w \<in> set FS. materialized w \<longrightarrow> \<not> suffix (m # versionFilePath) (wpath w)"
  shows "\<not> disturbs (Join d [''cue.mod'', ''pkg'', m]) ev \<and> \<not> markerWriteFor m ev"
proof -
  have ne: "m \<noteq> ''vendor-'' @ rnd" using tmp by auto
  have quiet: "\<not> disturbs (Join d [''cue.mod'', ''pkg'', m]) ev"
    using assms(1) ne by (auto simp: extractEvent_def Dir_Join split: if_splits)
  have "\<not> markerWriteFor m ev"
  proof
    assume mw: "markerWriteFor m ev"
    from assms(1) mw obtain w c r where w: "w \<in> set FS" "materialized w"
        and ev: "ev = EWriteFile (Join (Join d [''cue.mod'', ''pkg'', ''vendor-'' @ rnd]) (wpath w))
                        c mode0700 r"
      unfolding extractEvent_def by auto
    have "suffix (m # versionFilePath) ((elems d @ [''cue.mod'', ''pkg'']) @ (''vendor-'' @ rnd) # wpath w)"
      using mw ev by simp
    then have "suffix (m # versionFilePath) (wpath w)"
      by (rule suffix_past) (use ne in \<open>simp add: versionFilePath_def\<close>)
    then show False using ships w by blast
  qed
  with quiet show ?thesis ..
qed

lemma moduleCall_safe:
  assumes "moduleCall b (Join d [''cue.mod'', ''pkg'']) (Join d [''cue.mod'', ''pkg'', ''vendor-'' @ rnd]) m' ev"
      and "m' \<noteq> m" and "m \<noteq> m' @ ''.old''" and "\<not> prefix ''vendor-'' m"
  shows "\<not> disturbs (Join d [''cue.mod'', ''pkg'', m]) ev \<and> \<not> markerWriteFor m ev"
proof -
  have ne: "m \<noteq> ''vendor-'' @ rnd" using assms(4) by auto
  show ?thesis
    using assms(1-3) ne
    by (auto simp: moduleCall_def path_suffix_Join versionFilePath_def suffix_to_prefix)
qed

lemma loopEvent_safe:
  assumes "loopEvent b e (Join d [''cue.mod'', ''pkg'']) (Join d [''cue.mod'', ''pkg'', ''vendor-'' @ rnd]) order ev"
      and sym: "\<forall>t. lstat_r e t (Join d [''cue.mod'', ''pkg'', m]) = Inr Symlink"
      and old: "\<forall>m' \<in> fst ` set order. m \<noteq> m' @ ''.old''"
      and tmp: "\<not> prefix ''vendor-'' m"
  shows "\<not> disturbs (Join d [''cue.mod'', ''pkg'', m]) ev \<and> \<not> markerWriteFor m ev"
proof -
  from assms(1) obtain m' where m': "m' \<in> fst ` set order"
    and c: "(\<exists>r. ev = ELstat (Join d [''cue.mod'', ''pkg'', m']) r)
            \<or> ((\<exists>t. lstat_r e t (Join d [''cue.mod'', ''pkg'', m']) \<noteq> Inr Symlink)
                \<and> moduleCall b (Join d [''cue.mod'', ''pkg''])
                     (Join d [''cue.mod'', ''pkg'', ''vendor-'' @ rnd]) m' ev)"
    unfolding loopEvent_def by auto
  from c show ?thesis
  proof
    assume "\<exists>r. ev = ELstat (Join d [''cue.mod'', ''pkg'', m']) r"
    then show ?thesis by auto
  next
    assume a: "(\<exists>t. lstat_r e t (Join d [''cue.mod'', ''pkg'', m']) \<noteq> Inr Symlink)
                \<and> moduleCall b (Join d [''cue.mod'', ''pkg''])
                     (Join d [''cue.mod'', ''pkg'', ''vendor-'' @ rnd]) m' ev"
    then have "m' \<noteq> m" using sym by auto
    moreover have "m \<noteq> m' @ ''.old''" using old m' by auto
    ultimately show ?thesis using moduleCall_safe [of b d rnd m' ev m] a tmp by blast
  qed
qed

lemma vendorTrace_safe:
  assumes tr: "vendorTrace b FS order e d ts"
      and wd: "isAbs d \<or> (\<forall>t wd. getwd_r e t = Inr wd \<longrightarrow> isAbs wd)"
      and sym: "\<forall>t. lstat_r e t (Join d [''cue.mod'', ''pkg'', m]) = Inr Symlink"
      and own: "m \<notin> {''.gitignore'', ''.gitattributes'', lockFilePath}"
      and tmp: "\<not> prefix ''vendor-'' m"
      and old: "\<forall>m' \<in> fst ` set order. m \<noteq> m' @ ''.old''"
      and ships: "\<forall>w \<in> set FS. materialized w \<longrightarrow> \<not> suffix (m # versionFilePath) (wpath w)"
  shows "list_all (\<lambda>ev. \<not> disturbs (Join d [''cue.mod'', ''pkg'', m]) ev \<and> \<not> markerWriteFor m ev) ts"
proof -
  let ?pkg = "Join d [''cue.mod'', ''pkg'']"
  let ?Q = "\<lambda>ev. \<not> disturbs (Join d [''cue.mod'', ''pkg'', m]) ev \<and> \<not> markerWriteFor m ev"
  have ne: "\<And>rnd. m \<noteq> ''vendor-'' @ rnd" using tmp by auto
  have pre: "\<And>xs. list_all (preStageEvent e d ?pkg) xs \<Longrightarrow> list_all ?Q xs"
    using preStageEvent_safe [OF wd _ own] unfolding list_all_iff by blast
  have st: "\<And>rnd xs. list_all (stagedEvent b FS order e ?pkg (Join ?pkg [''vendor-'' @ rnd])) xs
               \<Longrightarrow> list_all ?Q xs"
    using extractEvent_safe [OF _ tmp ships] loopEvent_safe [OF _ sym old tmp]
    unfolding list_all_iff stagedEvent_def by auto
  have lk: "list_all ?Q xs" if "lockedTrace b FS order e d ?pkg xs" for xs
  proof -
    from that consider
        (short) "list_all (preStageEvent e d ?pkg) xs"
      | (staged) ts1 rnd ts2 r where
          "xs = ts1 @ [EMkdirTemp ?pkg ''vendor-*'' (Inr rnd)] @ ts2
                  @ [ERemoveAll (Join ?pkg [''vendor-'' @ rnd]) r]"
          "list_all (preStageEvent e d ?pkg) ts1"
          "list_all (stagedEvent b FS order e ?pkg (Join ?pkg [''vendor-'' @ rnd])) ts2"
      unfolding lockedTrace_def by blast
    then show ?thesis
    proof cases
      case short
      then show ?thesis by (rule pre)
    next
      case staged
      have "?Q (EMkdirTemp ?pkg ''vendor-*'' (Inr rnd))" by simp
      moreover have "?Q (ERemoveAll (Join ?pkg [''vendor-'' @ rnd]) r)" using ne [of rnd] by simp
      ultimately show ?thesis using staged(1) pre [OF staged(2)] st [OF staged(3)] by simp
    qed
  qed
  have q1: "\<And>r. ?Q (EMkdirAll ?pkg mode0755 r)" by simp
  have q2: "\<And>r. ?Q (ELock (Join ?pkg [lockFilePath]) r)" using own by auto
  have q3: "\<And>r. ?Q (EUnlock (Join ?pkg [lockFilePath]) r)" by simp
  have q4: "\<And>r. ?Q (ERemove (Join ?pkg [lockFilePath]) r)" using own by auto
  show ?thesis
    using tr lk q1 q2 q3 q4 unfolding vendorTrace_def Let_def by auto
qed

subsection \<open>A symlinked module in the check\<close>

lemma vendorModule_symlink:
  assumes "lstat_r e t (Join pkg [m]) = Inr Symlink"
  shows "vendorModule b e pkg u m ds t = (None, ds, t @ [ELstat (Join pkg [m]) (Inr Symlink)])"
  using assms by (simp add: vendorModule_def os_Lstat_def Let_def)

lemma checkModule_symlink:
  assumes "lstat_r e t (Join pkg [m]) = Inr Symlink"
  shows "checkModule lib e tool pkg (m, mn) t = (None, t @ [ELstat (Join pkg [m]) (Inr Symlink)])"
  using assms by (simp add: checkModule_def os_Lstat_def Let_def)

subsection \<open>The lock and the staging directory\<close>

lemma preStage_not_acquired:
  "list_all (preStageEvent e d pkg) xs \<Longrightarrow>
   EMkdirTemp q pat (Inr rnd) \<notin> set xs \<and> ELock lf r \<notin> set xs"
  by (auto simp: list_all_iff preStageEvent_def initEvent_def)

lemma staged_not_acquired:
  "list_all (stagedEvent b FS order e pkg u) xs \<Longrightarrow>
   EMkdirTemp q pat (Inr rnd) \<notin> set xs \<and> ELock lf r \<notin> set xs"
  by (auto simp: list_all_iff stagedEvent_def extractEvent_def loopEvent_def moduleCall_def)

lemma lockedTrace_staging:
  assumes "lockedTrace b FS order e d pkg ts"
      and "EMkdirTemp pkg ''vendor-*'' (Inr rnd) \<in> set ts"
  shows "\<exists>pre r0. ts = pre @ [ERemoveAll (Join pkg [''vendor-'' @ rnd]) r0]"
  using assms preStage_not_acquired [of e d pkg _ pkg "''vendor-*''" rnd]
    staged_not_acquired [of b FS order e pkg _ _ pkg "''vendor-*''" rnd]
  unfolding lockedTrace_def
  by (elim disjE exE conjE) (simp, force)

lemma lockedTrace_no_lock:
  assumes "lockedTrace b FS order e d pkg ts"
  shows "ELock lf r \<notin> set ts"
  using assms preStage_not_acquired [of e d pkg _ _ _ _ lf r]
    staged_not_acquired [of b FS order e pkg _ _ _ _ _ lf r]
  unfolding lockedTrace_def by auto

subsection \<open>What extractModules copies\<close>

lemma extractEntry_success:
  assumes "extractEntry e dest w t = (None, t1)"
  shows "(materialized w \<longrightarrow> t1 = t @ copyCalls dest w \<and> wread w = Inr (entryData w))
         \<and> (\<not> materialized w \<longrightarrow> t1 = t)"
  using assms
  by (auto simp: extractEntry_def materialized_def copyCalls_def entryData_def os_MkdirAll_def
        os_WriteFile_def Let_def split: option.splits sum.splits if_splits)

lemma extractModules_success:
  "extractModules e dest FS t = (None, t') \<Longrightarrow>
   t' = t @ concat (map (copyCalls dest) (filter materialized FS))
   \<and> list_all (\<lambda>w. wread w = Inr (entryData w)) (filter materialized FS)"
proof (induction FS arbitrary: t)
  case Nil
  then show ?case by simp
next
  case (Cons w ws)
  obtain r1 t1 where x: "extractEntry e dest w t = (r1, t1)" by (cases "extractEntry e dest w t")
  have r1: "r1 = None" using Cons.prems x by (cases r1) auto
  have rest: "extractModules e dest ws t1 = (None, t')" using Cons.prems x r1 by simp
  note ih = Cons.IH [OF rest]
  note hd = extractEntry_success [OF x [unfolded r1]]
  show ?case using ih hd by (cases "materialized w") auto
qed

lemma extractEntry_runs:
  assumes "werr w = None" and "materialized w \<longrightarrow> wread w = Inr (entryData w)"
      and "\<forall>t q m. mkdirall_r e t q m = None" and "\<forall>t q c m. writefile_r e t q c m = None"
  shows "fst (extractEntry e dest w t) = None"
  using assms
  by (auto simp: extractEntry_def materialized_def os_MkdirAll_def os_WriteFile_def Let_def
        split: option.splits sum.splits)

lemma extractModules_runs:
  assumes "\<forall>w \<in> set FS. werr w = None \<and> (materialized w \<longrightarrow> wread w = Inr (entryData w))"
      and "\<forall>t q m. mkdirall_r e t q m = None" and "\<forall>t q c m. writefile_r e t q c m = None"
  shows "fst (extractModules e dest FS t) = None"
  using assms(1)
proof (induction FS arbitrary: t)
  case Nil
  then show ?case by simp
next
  case (Cons w ws)
  have "fst (extractEntry e dest w t) = None"
    using Cons.prems assms(2,3) by (intro extractEntry_runs) auto
  then show ?case using Cons by (cases "extractEntry e dest w t") auto
qed

section \<open>The messages\<close>

lemma sublist_mid: "ys = ps @ xs @ ss \<Longrightarrow> sublist xs ys"
  by simp

lemma update_hint:
  "'' or newer). Run `dagger-cue project update` to resolve this'' =
     '' or newer). Run `'' @ ''dagger-cue project update'' @ ''` to resolve this''"
  by simp

lemma check_hint:
  "'' or newer. Run `dagger-cue version --check` to check for latest version'' =
     '' or newer. Run `'' @ ''dagger-cue version --check'' @ ''` to check for latest version''"
  by simp

lemma message_missing_parts:
  "sublist (quote m) (message lib (MissingVersionMarker m mn))"
  "sublist (gvString lib mn) (message lib (MissingVersionMarker m mn))"
  "sublist ''dagger-cue project update'' (message lib (MissingVersionMarker m mn))"
proof -
  show "sublist (quote m) (message lib (MissingVersionMarker m mn))"
    by (rule sublist_mid [where ps = "''package ''"]) (simp only: message.simps)
  show "sublist (gvString lib mn) (message lib (MissingVersionMarker m mn))"
    by (rule sublist_mid
          [where ps = "''package '' @ quote m
                        @ '' is incompatible with this version of dagger-cue (requires ''"])
       (simp only: message.simps append_assoc)
  show "sublist ''dagger-cue project update'' (message lib (MissingVersionMarker m mn))"
    by (rule sublist_mid
          [where ps = "''package '' @ quote m
                        @ '' is incompatible with this version of dagger-cue (requires ''
                        @ gvString lib mn @ '' or newer). Run `''"
             and ss = "''` to resolve this''"])
       (simp only: message.simps append_assoc update_hint)
qed

lemma message_incompatible_parts:
  "sublist (quote m) (message lib (IncompatibleModule m v mn))"
  "sublist (gvString lib v) (message lib (IncompatibleModule m v mn))"
  "sublist (gvString lib mn) (message lib (IncompatibleModule m v mn))"
  "sublist ''dagger-cue project update'' (message lib (IncompatibleModule m v mn))"
proof -
  show "sublist (quote m) (message lib (IncompatibleModule m v mn))"
    by (rule sublist_mid [where ps = "''package ''"]) (simp only: message.simps)
  show "sublist (gvString lib v) (message lib (IncompatibleModule m v mn))"
    by (rule sublist_mid [where ps = "''package '' @ quote m @ '' (version ''"])
       (simp only: message.simps append_assoc)
  show "sublist (gvString lib mn) (message lib (IncompatibleModule m v mn))"
    by (rule sublist_mid
          [where ps = "''package '' @ quote m @ '' (version '' @ gvString lib v
                        @ '') is incompatible with this version of dagger-cue (requires ''"])
       (simp only: message.simps append_assoc)
  show "sublist ''dagger-cue project update'' (message lib (IncompatibleModule m v mn))"
    by (rule sublist_mid
          [where ps = "''package '' @ quote m @ '' (version '' @ gvString lib v
                        @ '') is incompatible with this version of dagger-cue (requires ''
                        @ gvString lib mn @ '' or newer). Run `''"
             and ss = "''` to resolve this''"])
       (simp only: message.simps append_assoc update_hint)
qed

lemma message_upgrade_parts:
  "sublist (gvString lib v) (message lib (NeedsUpgrade v))"
  "sublist ''dagger-cue version --check'' (message lib (NeedsUpgrade v))"
proof -
  show "sublist (gvString lib v) (message lib (NeedsUpgrade v))"
    by (rule sublist_mid [where ps = "''this plan requires dagger-cue ''"])
       (simp only: message.simps)
  show "sublist ''dagger-cue version --check'' (message lib (NeedsUpgrade v))"
    by (rule sublist_mid
          [where ps = "''this plan requires dagger-cue '' @ gvString lib v @ '' or newer. Run `''"
             and ss = "''` to check for latest version''"])
       (simp only: message.simps append_assoc check_hint)
qed

lemma quote_plain:
  "CHR 0x22 \<notin> set m \<Longrightarrow> CHR 0x5C \<notin> set m \<Longrightarrow> quote m = [CHR 0x22] @ m @ [CHR 0x22]"
proof -
  assume a: "CHR 0x22 \<notin> set m" "CHR 0x5C \<notin> set m"
  have "concat (map (\<lambda>c. if c = CHR 0x22 \<or> c = CHR 0x5C then [CHR 0x5C, c] else [c]) m) = m"
    using a by (induction m) auto
  then show ?thesis by (simp add: quote_def)
qed

section \<open>A search that never returns\<close>

lemma isAbs_Dir [simp]: "isAbs (Dir p) = isAbs p"
  by (cases p) simp

lemma loop_relative_no_result:
  "GetCueModParent_loop e cwd parentDir t = Some y \<Longrightarrow> \<not> (e = envNoProject \<and> \<not> isAbs parentDir)"
  apply (erule GetCueModParent_loop.raw_induct
           [where P = "\<lambda>e cwd parentDir t y. \<not> (e = envNoProject \<and> \<not> isAbs parentDir)", rotated])
  subgoal premises prems for loop e cwd parentDir t y
    using prems(2)
      prems(1) [of e cwd "Dir parentDir"
        "t @ [EStat (Join parentDir [''cue.mod'']) (stat_r e t (Join parentDir [''cue.mod'']))]" y]
    by (cases parentDir)
       (auto simp: os_Stat_def envNoProject_def staticEnv_def rootPath_def split: if_splits)
  done

lemma relative_diverges:
  "GetCueModParent envNoProject [Path False [''a'']] [] = None"
proof (cases "GetCueModParent envNoProject [Path False [''a'']] []")
  case None
  then show ?thesis .
next
  case (Some y)
  then obtain cwd t1 where "GetCueModParent_loop envNoProject cwd (Path False [''a'']) t1 = Some y"
    by (auto simp: GetCueModParent_def os_Getwd_def Let_def)
  from loop_relative_no_result [OF this] show ?thesis by simp
qed

section \<open>Evaluating the program on the inputs above\<close>

lemmas check_eval =
  EnsureCompatibility_def projectRoot_def checkModule_def os_Lstat_def os_ReadFile_def Let_def
  release_def dotted_def digitVal_def TrimSpace_def asciiSpace_def isSpace2_def isSpace3_def tableOrder_def otherOrder_def
  staticEnv_def envNoMarkers_def envDaggerMarker_def envMarkers_def exRoot_def exPkg_def exMarker_def
  versionFilePath_def

lemmas vendor_eval =
  Vendor_def vendorLocked_def vendorStaged_def CueModInit_def filepath_Abs_def removeGitignore_def
  vendorModule_def extractEntry_def
  projectRoot_def os_Lstat_def os_ReadFile_def os_MkdirAll_def os_Stat_def
  os_Mkdir_def os_WriteFile_def os_MkdirTemp_def os_RemoveAll_def os_Remove_def os_Rename_def
  flock_Lock_def flock_Unlock_def Let_def staticEnv_def exRoot_def exPkg_def versionFilePath_def
  lockFilePath_def release_def tableOrder_def sublist_code

section \<open>The compatibility check\<close>

text \<open>
  C1, as the code has it. In a build that is not a development build, let the loop reach
  a module of the table (every module visited before it in this run passes), let its
  directory not be a symlink and its marker hold a text that parses to \<open>v\<close>. The body of the
  loop tests the minimum first, and so does the check: it fails with
  \<open>IncompatibleModule\<close> when \<open>v\<close> is less than the module's minimum, else with
  \<open>NeedsUpgrade\<close> when \<open>v\<close> is greater than the tool's version, else the module passes and
  the check goes on with the modules after it. Where the tool's version is not below the
  module's minimum (so that a version above the tool's is not below the minimum), these
  are the three cases of the claim: the check fails with \<open>IncompatibleModule\<close> when \<open>v\<close>
  is less than the minimum, fails with \<open>NeedsUpgrade\<close> when \<open>v\<close> is greater than the tool's
  version, and passes the module when \<open>v\<close> is neither.
\<close>

theorem C1_version_gating:
  assumes "Version b \<noteq> DevelopmentVersion b"
      and "gvNewVersion lib (Version b) = Inr tool"
      and "projectRoot e p t = Some (d, t0)"
      and "checkModules lib e tool (Join d [''cue.mod'', ''pkg'']) pre t0 = (None, t1)"
      and "lstat_r e t1 (Join d [''cue.mod'', ''pkg'', m]) \<noteq> Inr Symlink"
      and "readfile_r e
             (t1 @ [ELstat (Join d [''cue.mod'', ''pkg'', m])
                      (lstat_r e t1 (Join d [''cue.mod'', ''pkg'', m]))])
             (Join d [''cue.mod'', ''pkg'', m, ''cue.mod'', ''version.txt'']) = Inr data"
      and "gvNewVersion lib (TrimSpace data) = Inr v"
      and "t2 = t1 @ [ELstat (Join d [''cue.mod'', ''pkg'', m])
                        (lstat_r e t1 (Join d [''cue.mod'', ''pkg'', m])),
                      EReadFile (Join d [''cue.mod'', ''pkg'', m, ''cue.mod'', ''version.txt''])
                        (Inr data)]"
  shows "fst (checkModule lib e tool (Join d [''cue.mod'', ''pkg'']) (m, mn) t1) =
             (if gvLessThan lib v mn then Some (IncompatibleModule m v mn)
              else if gvGreaterThan lib v tool then Some (NeedsUpgrade v)
              else None)
           \<and> EnsureCompatibility lib b (pre @ (m, mn) # post) e p t =
             (if gvLessThan lib v mn then Some (Some (IncompatibleModule m v mn), t2)
              else if gvGreaterThan lib v tool then Some (Some (NeedsUpgrade v), t2)
              else Some (checkModules lib e tool (Join d [''cue.mod'', ''pkg'']) post t2))
           \<and> (\<not> gvLessThan lib tool mn
                \<and> (gvGreaterThan lib v tool \<and> gvLessThan lib v mn \<longrightarrow> gvLessThan lib tool mn) \<longrightarrow>
                (gvLessThan lib v mn \<longrightarrow>
                   EnsureCompatibility lib b (pre @ (m, mn) # post) e p t =
                     Some (Some (IncompatibleModule m v mn), t2))
                \<and> (gvGreaterThan lib v tool \<longrightarrow>
                     EnsureCompatibility lib b (pre @ (m, mn) # post) e p t =
                       Some (Some (NeedsUpgrade v), t2))
                \<and> (\<not> gvLessThan lib v mn \<and> \<not> gvGreaterThan lib v tool \<longrightarrow>
                     EnsureCompatibility lib b (pre @ (m, mn) # post) e p t =
                       Some (checkModules lib e tool (Join d [''cue.mod'', ''pkg'']) post t2)))"
proof -
  have body: "fst (checkModule lib e tool (Join d [''cue.mod'', ''pkg'']) (m, mn) t1) =
             (if gvLessThan lib v mn then Some (IncompatibleModule m v mn)
              else if gvGreaterThan lib v tool then Some (NeedsUpgrade v)
              else None)"
    using assms
    by (simp add: checkModule_def os_Lstat_def os_ReadFile_def Let_def versionFilePath_def)
  have run: "EnsureCompatibility lib b (pre @ (m, mn) # post) e p t =
             (if gvLessThan lib v mn then Some (Some (IncompatibleModule m v mn), t2)
              else if gvGreaterThan lib v tool then Some (Some (NeedsUpgrade v), t2)
              else Some (checkModules lib e tool (Join d [''cue.mod'', ''pkg'']) post t2))"
    using assms
    by (simp add: EnsureCompatibility_def checkModules_append checkModule_def os_Lstat_def
          os_ReadFile_def Let_def versionFilePath_def)
  have cases: "\<not> gvLessThan lib tool mn
                \<and> (gvGreaterThan lib v tool \<and> gvLessThan lib v mn \<longrightarrow> gvLessThan lib tool mn) \<longrightarrow>
                (gvLessThan lib v mn \<longrightarrow>
                   EnsureCompatibility lib b (pre @ (m, mn) # post) e p t =
                     Some (Some (IncompatibleModule m v mn), t2))
                \<and> (gvGreaterThan lib v tool \<longrightarrow>
                     EnsureCompatibility lib b (pre @ (m, mn) # post) e p t =
                       Some (Some (NeedsUpgrade v), t2))
                \<and> (\<not> gvLessThan lib v mn \<and> \<not> gvGreaterThan lib v tool \<longrightarrow>
                     EnsureCompatibility lib b (pre @ (m, mn) # post) e p t =
                       Some (checkModules lib e tool (Join d [''cue.mod'', ''pkg'']) post t2))"
    unfolding run by auto
  show ?thesis by (intro conjI body run cases)
qed

theorem C1_version_gating_witness:
  "\<not> gvLessThan dotted [0, 2, 11] [0, 2, 9]
   \<and> gvGreaterThan dotted [0, 2, 12] [0, 2, 11]
   \<and> EnsureCompatibility dotted (release ''0.2.11'')
       ([(''dagger.io'', [0, 2, 11])] @ (''universe.dagger.io'', [0, 2, 9]) # [])
       (envMarkers ''0.2.11'' ''0.2.12'') (Some exRoot) [] =
     Some (Some (NeedsUpgrade [0, 2, 12]),
           [ELstat (Path True [''proj'', ''cue.mod'', ''pkg'', ''dagger.io'']) (Inr Directory),
            EReadFile (exMarker ''dagger.io'') (Inr ''0.2.11''),
            ELstat (Path True [''proj'', ''cue.mod'', ''pkg'', ''universe.dagger.io'']) (Inr Directory),
            EReadFile (exMarker ''universe.dagger.io'') (Inr ''0.2.12'')])"
proof -
  let ?seen = "[ELstat (Path True [''proj'', ''cue.mod'', ''pkg'', ''dagger.io'']) (Inr Directory),
              EReadFile (exMarker ''dagger.io'') (Inr ''0.2.11'')]"
  let ?calls = "[ELstat (Path True [''proj'', ''cue.mod'', ''pkg'', ''dagger.io'']) (Inr Directory),
              EReadFile (exMarker ''dagger.io'') (Inr ''0.2.11''),
              ELstat (Path True [''proj'', ''cue.mod'', ''pkg'', ''universe.dagger.io'']) (Inr Directory),
              EReadFile (exMarker ''universe.dagger.io'') (Inr ''0.2.12'')]"
  have tool: "\<not> gvLessThan dotted [0, 2, 11] [0, 2, 9]
                \<and> (gvGreaterThan dotted [0, 2, 12] [0, 2, 11] \<and> gvLessThan dotted [0, 2, 12] [0, 2, 9]
                     \<longrightarrow> gvLessThan dotted [0, 2, 11] [0, 2, 9])"
    by (simp add: dotted_def)
  have above: "gvGreaterThan dotted [0, 2, 12] [0, 2, 11]"
    by (simp add: dotted_def)
  have notbelow: "\<not> gvLessThan dotted [0, 2, 12] [0, 2, 9]"
    by (simp add: dotted_def)
  have "\<not> gvLessThan dotted [0, 2, 11] [0, 2, 9]
                \<and> (gvGreaterThan dotted [0, 2, 12] [0, 2, 11] \<and> gvLessThan dotted [0, 2, 12] [0, 2, 9]
                     \<longrightarrow> gvLessThan dotted [0, 2, 11] [0, 2, 9]) \<longrightarrow>
        (gvLessThan dotted [0, 2, 12] [0, 2, 9] \<longrightarrow>
           EnsureCompatibility dotted (release ''0.2.11'')
             ([(''dagger.io'', [0, 2, 11])] @ (''universe.dagger.io'', [0, 2, 9]) # [])
             (envMarkers ''0.2.11'' ''0.2.12'') (Some exRoot) [] =
           Some (Some (IncompatibleModule ''universe.dagger.io'' [0, 2, 12] [0, 2, 9]), ?calls))
        \<and> (gvGreaterThan dotted [0, 2, 12] [0, 2, 11] \<longrightarrow>
             EnsureCompatibility dotted (release ''0.2.11'')
               ([(''dagger.io'', [0, 2, 11])] @ (''universe.dagger.io'', [0, 2, 9]) # [])
               (envMarkers ''0.2.11'' ''0.2.12'') (Some exRoot) [] =
             Some (Some (NeedsUpgrade [0, 2, 12]), ?calls))
        \<and> (\<not> gvLessThan dotted [0, 2, 12] [0, 2, 9] \<and> \<not> gvGreaterThan dotted [0, 2, 12] [0, 2, 11] \<longrightarrow>
             EnsureCompatibility dotted (release ''0.2.11'')
               ([(''dagger.io'', [0, 2, 11])] @ (''universe.dagger.io'', [0, 2, 9]) # [])
               (envMarkers ''0.2.11'' ''0.2.12'') (Some exRoot) [] =
             Some (checkModules dotted (envMarkers ''0.2.11'' ''0.2.12'') [0, 2, 11]
                     (Join exRoot [''cue.mod'', ''pkg'']) [] ?calls))"
    by (rule C1_version_gating
          [where data = "''0.2.12''" and ?t0.0 = "[]" and ?t1.0 = "?seen" and d = exRoot,
           THEN conjunct2, THEN conjunct2])
       (simp_all add: check_eval)
  then have "EnsureCompatibility dotted (release ''0.2.11'')
               ([(''dagger.io'', [0, 2, 11])] @ (''universe.dagger.io'', [0, 2, 9]) # [])
               (envMarkers ''0.2.11'' ''0.2.12'') (Some exRoot) [] =
             Some (Some (NeedsUpgrade [0, 2, 12]), ?calls)"
    using tool above notbelow by simp
  then show ?thesis using tool above by simp
qed

text \<open>
  C1 as stated fails: the check returns at the first module that fails. Take the tool at
  0.2.11 (not below either minimum), the marker of \<open>dagger.io\<close> at 0.2.12 and that of
  \<open>universe.dagger.io\<close> at 0.2.8. Neither directory is a symlink and both markers
  parse. On its own \<open>universe.dagger.io\<close> fails with \<open>IncompatibleModule\<close> (0.2.8 is below
  its minimum 0.2.9) and \<open>dagger.io\<close> with \<open>NeedsUpgrade\<close> (0.2.12 is above the tool's
  version). The run that visits \<open>dagger.io\<close> first fails with \<open>NeedsUpgrade\<close> and never
  looks at \<open>universe.dagger.io\<close>; the run that visits \<open>universe.dagger.io\<close> first fails
  with \<open>IncompatibleModule\<close> and never looks at \<open>dagger.io\<close>. In either run the check
  does not fail the way the claim says for the module it has not reached.
\<close>

theorem C1_counterexample:
  "rangeOrder dotted tableOrder \<and> rangeOrder dotted otherOrder
   \<and> gvNewVersion dotted ''0.2.11'' = Inr [0, 2, 11]
   \<and> \<not> gvLessThan dotted [0, 2, 11] [0, 2, 11] \<and> \<not> gvLessThan dotted [0, 2, 11] [0, 2, 9]
   \<and> lstat_r (envMarkers ''0.2.12'' ''0.2.8'') [] (Join exRoot [''cue.mod'', ''pkg'', ''universe.dagger.io''])
       = Inr Directory
   \<and> readfile_r (envMarkers ''0.2.12'' ''0.2.8'') [] (exMarker ''universe.dagger.io'') = Inr ''0.2.8''
   \<and> gvNewVersion dotted (TrimSpace ''0.2.8'') = Inr [0, 2, 8]
   \<and> gvLessThan dotted [0, 2, 8] [0, 2, 9]
   \<and> fst (checkModule dotted (envMarkers ''0.2.12'' ''0.2.8'') [0, 2, 11] exPkg
             (''universe.dagger.io'', [0, 2, 9]) []) =
       Some (IncompatibleModule ''universe.dagger.io'' [0, 2, 8] [0, 2, 9])
   \<and> EnsureCompatibility dotted (release ''0.2.11'') tableOrder (envMarkers ''0.2.12'' ''0.2.8'')
       (Some exRoot) [] =
       Some (Some (NeedsUpgrade [0, 2, 12]),
             [ELstat (Path True [''proj'', ''cue.mod'', ''pkg'', ''dagger.io'']) (Inr Directory),
              EReadFile (exMarker ''dagger.io'') (Inr ''0.2.12'')])
   \<and> lstat_r (envMarkers ''0.2.12'' ''0.2.8'') [] (Join exRoot [''cue.mod'', ''pkg'', ''dagger.io''])
       = Inr Directory
   \<and> readfile_r (envMarkers ''0.2.12'' ''0.2.8'') [] (exMarker ''dagger.io'') = Inr ''0.2.12''
   \<and> gvNewVersion dotted (TrimSpace ''0.2.12'') = Inr [0, 2, 12]
   \<and> gvGreaterThan dotted [0, 2, 12] [0, 2, 11]
   \<and> fst (checkModule dotted (envMarkers ''0.2.12'' ''0.2.8'') [0, 2, 11] exPkg
             (''dagger.io'', [0, 2, 11]) []) =
       Some (NeedsUpgrade [0, 2, 12])
   \<and> EnsureCompatibility dotted (release ''0.2.11'') otherOrder (envMarkers ''0.2.12'' ''0.2.8'')
       (Some exRoot) [] =
       Some (Some (IncompatibleModule ''universe.dagger.io'' [0, 2, 8] [0, 2, 9]),
             [ELstat (Path True [''proj'', ''cue.mod'', ''pkg'', ''universe.dagger.io'']) (Inr Directory),
              EReadFile (exMarker ''universe.dagger.io'') (Inr ''0.2.8'')])"
proof -
  have 1: "rangeOrder dotted tableOrder \<and> rangeOrder dotted otherOrder"
    by code_simp
  show ?thesis using 1 by (simp add: check_eval)
qed

text \<open>
  C2, as the code has it. The check examines the modules in the order the \<open>range\<close> over
  the table visits them in this run, and returns the error of the first module that
  fails: once the modules visited before an entry pass and the entry fails with \<open>err\<close>,
  the check returns \<open>err\<close>, and the transcript ends with the calls made for that entry,
  whatever the modules after it would do.
\<close>

theorem C2_first_failure_in_range_order:
  assumes "Version b \<noteq> DevelopmentVersion b"
      and "gvNewVersion lib (Version b) = Inr tool"
      and "projectRoot e p t = Some (d, t0)"
      and "checkModules lib e tool (Join d [''cue.mod'', ''pkg'']) pre t0 = (None, t1)"
      and "checkModule lib e tool (Join d [''cue.mod'', ''pkg'']) entry t1 = (Some err, t2)"
  shows "EnsureCompatibility lib b (pre @ entry # post) e p t = Some (Some err, t2)"
  using assms by (rule EnsureCompatibility_first_failure)

theorem C2_first_failure_in_range_order_witness:
  "EnsureCompatibility dotted (release ''0.2.11'')
     ([(''dagger.io'', [0, 2, 11])] @ (''universe.dagger.io'', [0, 2, 9]) # [])
     (envDaggerMarker ''0.2.11'') (Some exRoot) [] =
   Some (Some (MissingVersionMarker ''universe.dagger.io'' [0, 2, 9]),
         [ELstat (Path True [''proj'', ''cue.mod'', ''pkg'', ''dagger.io'']) (Inr Directory),
          EReadFile (exMarker ''dagger.io'') (Inr ''0.2.11''),
          ELstat (Path True [''proj'', ''cue.mod'', ''pkg'', ''universe.dagger.io'']) (Inr Directory),
          EReadFile (exMarker ''universe.dagger.io'') (Inl ErrNotExist)])"
  by (rule C2_first_failure_in_range_order
        [where tool = "[0, 2, 11]" and d = exRoot and ?t0.0 = "[]"
           and ?t1.0 = "[ELstat (Path True [''proj'', ''cue.mod'', ''pkg'', ''dagger.io'']) (Inr Directory),
                         EReadFile (exMarker ''dagger.io'') (Inr ''0.2.11'')]"])
     (simp_all add: check_eval)

text \<open>
  C2 as stated fails: the table is a Go map, so the \<open>range\<close> may visit
  \<open>universe.dagger.io\<close> first although the table lists \<open>dagger.io\<close> first. With no
  marker under either module, each fails on its own, and the run that visits
  \<open>universe.dagger.io\<close> first reports it, not the module listed first.
\<close>

theorem C2_counterexample:
  "map fst ModuleRequirements = [''dagger.io'', ''universe.dagger.io'']
   \<and> rangeOrder dotted tableOrder \<and> rangeOrder dotted otherOrder
   \<and> fst (checkModule dotted envNoMarkers [0, 2, 11] exPkg (''dagger.io'', [0, 2, 11]) []) =
       Some (MissingVersionMarker ''dagger.io'' [0, 2, 11])
   \<and> fst (checkModule dotted envNoMarkers [0, 2, 11] exPkg (''universe.dagger.io'', [0, 2, 9]) []) =
       Some (MissingVersionMarker ''universe.dagger.io'' [0, 2, 9])
   \<and> EnsureCompatibility dotted (release ''0.2.11'') tableOrder envNoMarkers (Some exRoot) [] =
       Some (Some (MissingVersionMarker ''dagger.io'' [0, 2, 11]),
             [ELstat (Path True [''proj'', ''cue.mod'', ''pkg'', ''dagger.io'']) (Inr Directory),
              EReadFile (exMarker ''dagger.io'') (Inl ErrNotExist)])
   \<and> EnsureCompatibility dotted (release ''0.2.11'') otherOrder envNoMarkers (Some exRoot) [] =
       Some (Some (MissingVersionMarker ''universe.dagger.io'' [0, 2, 9]),
             [ELstat (Path True [''proj'', ''cue.mod'', ''pkg'', ''universe.dagger.io'']) (Inr Directory),
              EReadFile (exMarker ''universe.dagger.io'') (Inl ErrNotExist)])"
proof -
  have 1: "map fst ModuleRequirements = [''dagger.io'', ''universe.dagger.io'']"
    by (simp add: ModuleRequirements_def DaggerModule_def UniverseModule_def)
  have 2: "rangeOrder dotted tableOrder \<and> rangeOrder dotted otherOrder"
    by code_simp
  show ?thesis using 1 2 by (simp add: check_eval)
qed

text \<open>
  C4, as the code has it. In a build that is not a development build, let the loop reach a
  module (the modules visited before it pass) whose directory exists and is not a symlink
  and whose marker file does not exist. Then the check fails with
  \<open>MissingVersionMarker\<close> for that module and its minimum version; the message holds the
  quoted module, the minimum version and the command \<open>dagger-cue project update\<close>. And
  whatever the build, the order and the project root, the check never fails with a parse
  error for that marker.
\<close>

theorem C4_missing_marker:
  assumes "Version b \<noteq> DevelopmentVersion b"
      and "gvNewVersion lib (Version b) = Inr tool"
      and "projectRoot e p t = Some (d, t0)"
      and "checkModules lib e tool (Join d [''cue.mod'', ''pkg'']) pre t0 = (None, t1)"
      and "lstat_r e t1 (Join d [''cue.mod'', ''pkg'', m]) = Inr ft" and "ft \<noteq> Symlink"
      and "\<forall>t. readfile_r e t (Join d [''cue.mod'', ''pkg'', m, ''cue.mod'', ''version.txt''])
                 = Inl ErrNotExist"
  shows "EnsureCompatibility lib b (pre @ (m, mn) # post) e p t =
           Some (Some (MissingVersionMarker m mn),
                 t1 @ [ELstat (Join d [''cue.mod'', ''pkg'', m]) (Inr ft),
                       EReadFile (Join d [''cue.mod'', ''pkg'', m, ''cue.mod'', ''version.txt''])
                         (Inl ErrNotExist)])
         \<and> sublist (quote m) (message lib (MissingVersionMarker m mn))
         \<and> sublist (gvString lib mn) (message lib (MissingVersionMarker m mn))
         \<and> sublist ''dagger-cue project update'' (message lib (MissingVersionMarker m mn))
         \<and> (\<forall>b' order' p' t' s t''.
               EnsureCompatibility lib b' order' e p' t' \<noteq>
                 Some (Some (MalformedVersion
                         (Join d [''cue.mod'', ''pkg'', m, ''cue.mod'', ''version.txt'']) s), t''))"
proof -
  have run: "EnsureCompatibility lib b (pre @ (m, mn) # post) e p t =
           Some (Some (MissingVersionMarker m mn),
                 t1 @ [ELstat (Join d [''cue.mod'', ''pkg'', m]) (Inr ft),
                       EReadFile (Join d [''cue.mod'', ''pkg'', m, ''cue.mod'', ''version.txt''])
                         (Inl ErrNotExist)])"
    using assms
    by (simp add: EnsureCompatibility_def checkModules_append checkModule_def os_Lstat_def
          os_ReadFile_def Let_def versionFilePath_def)
  have np: "\<forall>b' order' p' t' s t''.
               EnsureCompatibility lib b' order' e p' t' \<noteq>
                 Some (Some (MalformedVersion
                         (Join d [''cue.mod'', ''pkg'', m, ''cue.mod'', ''version.txt'']) s), t'')"
    using EnsureCompatibility_no_parse_error [OF assms(7)] by blast
  show ?thesis by (intro conjI run message_missing_parts np)
qed

theorem C4_missing_marker_witness:
  "EnsureCompatibility dotted (release ''0.2.11'')
       ([] @ (''dagger.io'', [0, 2, 11]) # [(''universe.dagger.io'', [0, 2, 9])])
       envNoMarkers (Some exRoot) [] =
     Some (Some (MissingVersionMarker ''dagger.io'' [0, 2, 11]),
           [] @ [ELstat (Join exRoot [''cue.mod'', ''pkg'', ''dagger.io'']) (Inr Directory),
                 EReadFile (Join exRoot [''cue.mod'', ''pkg'', ''dagger.io'', ''cue.mod'', ''version.txt''])
                   (Inl ErrNotExist)])
   \<and> sublist (quote ''dagger.io'') (message dotted (MissingVersionMarker ''dagger.io'' [0, 2, 11]))
   \<and> sublist (gvString dotted [0, 2, 11]) (message dotted (MissingVersionMarker ''dagger.io'' [0, 2, 11]))
   \<and> sublist ''dagger-cue project update'' (message dotted (MissingVersionMarker ''dagger.io'' [0, 2, 11]))
   \<and> (\<forall>b' order' p' t' s t''.
         EnsureCompatibility dotted b' order' envNoMarkers p' t' \<noteq>
           Some (Some (MalformedVersion
                   (Join exRoot [''cue.mod'', ''pkg'', ''dagger.io'', ''cue.mod'', ''version.txt'']) s), t''))"
  by (rule C4_missing_marker [where tool = "[0, 2, 11]" and ?t0.0 = "[]"])
     (simp_all add: check_eval)

text \<open>
  C4 as stated fails: it leaves out the development build, where the check returns
  success before it looks at any marker; and of two modules without a marker only the one
  visited first is named in the error.
\<close>

theorem C4_counterexample:
  "lstat_r envNoMarkers [] (Join exRoot [''cue.mod'', ''pkg'', ''dagger.io'']) = Inr Directory
   \<and> readfile_r envNoMarkers [] (exMarker ''dagger.io'') = Inl ErrNotExist
   \<and> EnsureCompatibility dotted (release ''devel'') tableOrder envNoMarkers (Some exRoot) [] = Some (None, [])
   \<and> lstat_r envNoMarkers [] (Join exRoot [''cue.mod'', ''pkg'', ''universe.dagger.io'']) = Inr Directory
   \<and> readfile_r envNoMarkers [] (exMarker ''universe.dagger.io'') = Inl ErrNotExist
   \<and> EnsureCompatibility dotted (release ''0.2.11'') tableOrder envNoMarkers (Some exRoot) [] =
       Some (Some (MissingVersionMarker ''dagger.io'' [0, 2, 11]),
             [ELstat (Path True [''proj'', ''cue.mod'', ''pkg'', ''dagger.io'']) (Inr Directory),
              EReadFile (exMarker ''dagger.io'') (Inl ErrNotExist)])"
  by (simp add: check_eval)

text \<open>
  C7, as the code has it. The message of \<open>MissingVersionMarker\<close> holds the quoted module,
  the minimum version and the command \<open>dagger-cue project update\<close>; the message of
  \<open>IncompatibleModule\<close> holds the quoted module, the vendored and the minimum version and
  the same command; the message of \<open>NeedsUpgrade\<close> holds the vendored version and the
  command \<open>dagger-cue version --check\<close>.
\<close>

theorem C7_messages:
  "sublist (quote m) (message lib (MissingVersionMarker m mn))
   \<and> sublist (gvString lib mn) (message lib (MissingVersionMarker m mn))
   \<and> sublist ''dagger-cue project update'' (message lib (MissingVersionMarker m mn))
   \<and> sublist (quote m) (message lib (IncompatibleModule m v mn))
   \<and> sublist (gvString lib v) (message lib (IncompatibleModule m v mn))
   \<and> sublist (gvString lib mn) (message lib (IncompatibleModule m v mn))
   \<and> sublist ''dagger-cue project update'' (message lib (IncompatibleModule m v mn))
   \<and> sublist (gvString lib v) (message lib (NeedsUpgrade v))
   \<and> sublist ''dagger-cue version --check'' (message lib (NeedsUpgrade v))"
  by (intro conjI message_missing_parts message_incompatible_parts message_upgrade_parts)

text \<open>
  C7 as stated fails: with the tool at 0.2.11 and the marker of \<open>dagger.io\<close> at 0.2.12 the
  check fails with \<open>NeedsUpgrade\<close>, and its message names neither the module nor the
  tool's version.
\<close>

theorem C7_counterexample:
  "EnsureCompatibility dotted (release ''0.2.11'') tableOrder (envDaggerMarker ''0.2.12'') (Some exRoot) [] =
     Some (Some (NeedsUpgrade [0, 2, 12]),
           [ELstat (Path True [''proj'', ''cue.mod'', ''pkg'', ''dagger.io'']) (Inr Directory),
            EReadFile (exMarker ''dagger.io'') (Inr ''0.2.12'')])
   \<and> message dotted (NeedsUpgrade [0, 2, 12]) =
       ''this plan requires dagger-cue 0.2.12 or newer. Run `dagger-cue version --check` to check for latest version''
   \<and> \<not> sublist ''dagger.io'' (message dotted (NeedsUpgrade [0, 2, 12]))
   \<and> \<not> sublist ''0.2.11'' (message dotted (NeedsUpgrade [0, 2, 12]))"
proof -
  have 1: "EnsureCompatibility dotted (release ''0.2.11'') tableOrder (envDaggerMarker ''0.2.12'')
             (Some exRoot) [] =
     Some (Some (NeedsUpgrade [0, 2, 12]),
           [ELstat (Path True [''proj'', ''cue.mod'', ''pkg'', ''dagger.io'']) (Inr Directory),
            EReadFile (exMarker ''dagger.io'') (Inr ''0.2.12'')])"
    by (simp add: check_eval)
  have 2: "message dotted (NeedsUpgrade [0, 2, 12]) =
       ''this plan requires dagger-cue 0.2.12 or newer. Run `dagger-cue version --check` to check for latest version''"
    by code_simp
  have 3: "\<not> sublist ''dagger.io'' (message dotted (NeedsUpgrade [0, 2, 12]))"
    by code_simp
  have 4: "\<not> sublist ''0.2.11'' (message dotted (NeedsUpgrade [0, 2, 12]))"
    by code_simp
  show ?thesis by (intro conjI 1 2 3 4)
qed

text \<open>
  C5. In a development build, the check returns success at once, with no call made,
  whatever the file system holds. And where the bundle itself ships no file whose path
  ends in \<open>cue.mod/version.txt\<close>, whenever the project root is found, \<open>Vendor\<close> returns,
  and no call of its run writes to a path that ends in \<open>cue.mod/version.txt\<close>, with
  whatever permission bits.
\<close>

theorem C5_development_build:
  assumes "Version b = DevelopmentVersion b"
  shows "EnsureCompatibility lib b order e p t = Some (None, t)
         \<and> ((\<forall>w \<in> set FS. materialized w \<longrightarrow> \<not> suffix versionFilePath (wpath w)) \<longrightarrow>
            (\<forall>d t0. projectRoot e p t = Some (d, t0) \<longrightarrow>
               (\<exists>res ts. Vendor b FS order' e p t = Some (res, t0 @ ts)
                          \<and> list_all (\<lambda>ev. \<not> isMarkerWrite ev) ts)))"
proof -
  have 1: "EnsureCompatibility lib b order e p t = Some (None, t)"
    using assms by (simp add: EnsureCompatibility_def)
  have 2: "\<exists>res ts. Vendor b FS order' e p t = Some (res, t0 @ ts)
                          \<and> list_all (\<lambda>ev. \<not> isMarkerWrite ev) ts"
    if ships: "\<forall>w \<in> set FS. materialized w \<longrightarrow> \<not> suffix versionFilePath (wpath w)"
      and root: "projectRoot e p t = Some (d, t0)" for d t0
    using Vendor_trace [OF root, of b FS order'] vendorTrace_no_marker [OF assms ships] by blast
  show ?thesis by (intro conjI 1 allI impI 2)
qed

theorem C5_development_build_witness:
  "EnsureCompatibility dotted (release ''devel'') tableOrder envNoMarkers (Some exRoot) [] = Some (None, [])
   \<and> (\<exists>res ts. Vendor (release ''devel'') exBundle tableOrder envNoMarkers (Some exRoot) [] =
                   Some (res, [] @ ts)
                 \<and> list_all (\<lambda>ev. \<not> isMarkerWrite ev) ts)"
proof -
  have dev: "Version (release ''devel'') = DevelopmentVersion (release ''devel'')"
    by (simp add: release_def)
  have ships: "\<forall>w \<in> set exBundle. materialized w \<longrightarrow> \<not> suffix versionFilePath (wpath w)"
    by (simp add: exBundle_def versionFilePath_def suffix_to_prefix)
  have root: "projectRoot envNoMarkers (Some exRoot) [] = Some (exRoot, [])"
    by (simp add: projectRoot_def)
  note c5 = C5_development_build [OF dev, of dotted tableOrder envNoMarkers "Some exRoot" "[]" exBundle tableOrder]
  have 1: "EnsureCompatibility dotted (release ''devel'') tableOrder envNoMarkers (Some exRoot) [] = Some (None, [])"
    by (rule conjunct1 [OF c5])
  have 2: "\<exists>res ts. Vendor (release ''devel'') exBundle tableOrder envNoMarkers (Some exRoot) [] =
                   Some (res, [] @ ts)
                 \<and> list_all (\<lambda>ev. \<not> isMarkerWrite ev) ts"
    using conjunct2 [OF c5] ships root by blast
  show ?thesis by (intro conjI 1 2)
qed

section \<open>The vendoring run\<close>

text \<open>
  C6. Let the directory of a module be a symlink whenever it is probed, and the module's
  name be none of the names \<open>Vendor\<close> manages in the package directory (the ignore and
  attribute files, the lock file, a staging directory, the backup of a module of the
  table). Let the bundle ship no version marker for the module, and the working directory
  that \<open>os.Getwd\<close> reports be rooted, as it promises (or the project root be rooted, where
  it is not asked). Then \<open>Vendor\<close> returns, and none of its calls removes or renames the
  directory, one above it or anything below it, renames anything onto one of these, or
  creates or writes anything at or below it, and none writes a version marker for the
  module, with whatever permission bits. The check returns too; all its calls only read,
  and none reads the marker of the module. The body of its loop passes the module after
  the probe of its directory, whatever the marker behind the symlink holds; and once the
  modules visited before it pass, the check returns what the modules after it give. The
  body of the loop of \<open>Vendor\<close> goes on to the next module after the same probe, with no
  error and no backup to remove.
\<close>

theorem C6_symlinked_module_left_alone:
  fixes lib :: "'v goversion" and order :: "(string \<times> 'v) list"
  assumes root: "projectRoot e p t = Some (d, t0)"
      and wd: "isAbs d \<or> (\<forall>t wd. getwd_r e t = Inr wd \<longrightarrow> isAbs wd)"
      and sym: "\<forall>t. lstat_r e t (Join d [''cue.mod'', ''pkg'', m]) = Inr Symlink"
      and own: "m \<notin> {''.gitignore'', ''.gitattributes'', lockFilePath}"
      and tmp: "\<not> prefix ''vendor-'' m"
      and old: "\<forall>m' \<in> fst ` set order. m \<noteq> m' @ ''.old''"
      and ships: "\<forall>w \<in> set FS. materialized w \<longrightarrow> \<not> suffix (m # versionFilePath) (wpath w)"
  shows "(\<exists>res ts. Vendor b FS order e p t = Some (res, t0 @ ts)
            \<and> list_all (\<lambda>ev. \<not> disturbs (Join d [''cue.mod'', ''pkg'', m]) ev
                               \<and> \<not> markerWriteFor m ev) ts)
         \<and> (\<exists>res ts. EnsureCompatibility lib b order e p t = Some (res, t @ ts)
              \<and> list_all (\<lambda>ev. readOnly ev
                     \<and> (\<forall>r. ev \<noteq> EReadFile
                                  (Join d [''cue.mod'', ''pkg'', m, ''cue.mod'', ''version.txt'']) r))
                   ts)
         \<and> (\<forall>tool mn t1.
               checkModule lib e tool (Join d [''cue.mod'', ''pkg'']) (m, mn) t1 =
                 (None, t1 @ [ELstat (Join d [''cue.mod'', ''pkg'', m]) (Inr Symlink)]))
         \<and> (\<forall>tool pre mn post t1.
               Version b \<noteq> DevelopmentVersion b \<and> gvNewVersion lib (Version b) = Inr tool
               \<and> checkModules lib e tool (Join d [''cue.mod'', ''pkg'']) pre t0 = (None, t1) \<longrightarrow>
               EnsureCompatibility lib b (pre @ (m, mn) # post) e p t =
                 Some (checkModules lib e tool (Join d [''cue.mod'', ''pkg'']) post
                         (t1 @ [ELstat (Join d [''cue.mod'', ''pkg'', m]) (Inr Symlink)])))
         \<and> (\<forall>unpackDir ds t1.
               vendorModule b e (Join d [''cue.mod'', ''pkg'']) unpackDir m ds t1 =
                 (None, ds, t1 @ [ELstat (Join d [''cue.mod'', ''pkg'', m]) (Inr Symlink)]))"
proof -
  let ?pkg = "Join d [''cue.mod'', ''pkg'']"
  let ?live = "Join d [''cue.mod'', ''pkg'', m]"
  let ?marker = "Join d [''cue.mod'', ''pkg'', m, ''cue.mod'', ''version.txt'']"
  let ?R = "\<lambda>ev. readOnly ev \<and> (\<forall>r. ev \<noteq> EReadFile ?marker r)"
  have vendor: "\<exists>res ts. Vendor b FS order e p t = Some (res, t0 @ ts)
            \<and> list_all (\<lambda>ev. \<not> disturbs ?live ev \<and> \<not> markerWriteFor m ev) ts"
    using Vendor_trace [OF root, of b FS order] vendorTrace_safe [OF _ wd sym own tmp old ships]
    by blast
  have probes: "extends ?R t t0"
    using projectRoot_probes [OF root] by (rule extends_mono) (auto elim: isProbe.elims)
  have ce: "?R ev" if "checkEvent e ?pkg order ev" for ev
    using that sym by (auto simp: checkEvent_def versionFilePath_def)
  obtain res t' where run: "EnsureCompatibility lib b order e p t = Some (res, t')"
      and shape: "t' = t \<or> extends (checkEvent e ?pkg order) t0 t'"
    using EnsureCompatibility_trace [OF root, of lib b order] by blast
  have "extends ?R t t'"
  proof (cases "t' = t")
    case True
    then show ?thesis by simp
  next
    case False
    then have "extends (checkEvent e ?pkg order) t0 t'" using shape by simp
    then have "extends ?R t0 t'" by (rule extends_mono) (rule ce)
    with probes show ?thesis by (rule extends_trans)
  qed
  then have check: "\<exists>res ts. EnsureCompatibility lib b order e p t = Some (res, t @ ts)
              \<and> list_all ?R ts"
    using run by (auto simp: extends_def)
  have skip: "checkModule lib e tool ?pkg (m, mn) t1 = (None, t1 @ [ELstat ?live (Inr Symlink)])"
    for tool mn t1
    using checkModule_symlink [of e t1 ?pkg m lib tool mn] sym by simp
  have rest: "EnsureCompatibility lib b (pre @ (m, mn) # post) e p t =
                 Some (checkModules lib e tool ?pkg post (t1 @ [ELstat ?live (Inr Symlink)]))"
    if "Version b \<noteq> DevelopmentVersion b \<and> gvNewVersion lib (Version b) = Inr tool
        \<and> checkModules lib e tool ?pkg pre t0 = (None, t1)" for tool pre mn post t1
    using that root skip [of tool mn t1]
    by (simp add: EnsureCompatibility_def checkModules_append)
  have skipAll: "\<forall>tool mn t1.
               checkModule lib e tool ?pkg (m, mn) t1 = (None, t1 @ [ELstat ?live (Inr Symlink)])"
    by (intro allI) (rule skip)
  have restAll: "\<forall>tool pre mn post t1.
               Version b \<noteq> DevelopmentVersion b \<and> gvNewVersion lib (Version b) = Inr tool
               \<and> checkModules lib e tool ?pkg pre t0 = (None, t1) \<longrightarrow>
               EnsureCompatibility lib b (pre @ (m, mn) # post) e p t =
                 Some (checkModules lib e tool ?pkg post (t1 @ [ELstat ?live (Inr Symlink)]))"
    by (intro allI impI) (rule rest)
  have next_module: "\<forall>unpackDir ds t1.
               vendorModule b e ?pkg unpackDir m ds t1 = (None, ds, t1 @ [ELstat ?live (Inr Symlink)])"
    using vendorModule_symlink [of e _ ?pkg m b] sym by simp
  show ?thesis by (intro conjI vendor check skipAll restAll next_module)
qed

theorem C6_symlinked_module_left_alone_witness:
  "(\<exists>res ts. Vendor (release ''0.2.11'') exBundle tableOrder envSymlink (Some exRoot) [] =
                 Some (res, [] @ ts)
            \<and> list_all (\<lambda>ev. \<not> disturbs (Join exRoot [''cue.mod'', ''pkg'', ''universe.dagger.io'']) ev
                               \<and> \<not> markerWriteFor ''universe.dagger.io'' ev) ts)
   \<and> (\<exists>res ts. EnsureCompatibility dotted (release ''0.2.11'') tableOrder envSymlink (Some exRoot) [] =
                   Some (res, [] @ ts)
              \<and> list_all (\<lambda>ev. readOnly ev
                     \<and> (\<forall>r. ev \<noteq> EReadFile
                                  (Join exRoot [''cue.mod'', ''pkg'', ''universe.dagger.io'',
                                                ''cue.mod'', ''version.txt'']) r))
                   ts)
   \<and> checkModule dotted envSymlink [0, 2, 11] (Join exRoot [''cue.mod'', ''pkg''])
       (''universe.dagger.io'', [0, 2, 9]) [] =
       (None, [] @ [ELstat (Join exRoot [''cue.mod'', ''pkg'', ''universe.dagger.io'']) (Inr Symlink)])
   \<and> vendorModule (release ''0.2.11'') envSymlink (Join exRoot [''cue.mod'', ''pkg''])
       (Join exRoot [''cue.mod'', ''pkg'', ''vendor-042'']) ''universe.dagger.io'' [] [] =
       (None, [], [] @ [ELstat (Join exRoot [''cue.mod'', ''pkg'', ''universe.dagger.io'']) (Inr Symlink)])
   \<and> readfile_r envSymlink [] (exMarker ''universe.dagger.io'') = Inr ''0.0.1''
   \<and> EnsureCompatibility dotted (release ''0.2.11'') tableOrder envSymlink (Some exRoot) [] =
       Some (None,
             [ELstat (Path True [''proj'', ''cue.mod'', ''pkg'', ''dagger.io'']) (Inr Directory),
              EReadFile (exMarker ''dagger.io'') (Inr ''0.2.11''),
              ELstat (Path True [''proj'', ''cue.mod'', ''pkg'', ''universe.dagger.io'']) (Inr Symlink)])"
proof -
  let ?seen = "[ELstat (Path True [''proj'', ''cue.mod'', ''pkg'', ''dagger.io'']) (Inr Directory),
                EReadFile (exMarker ''dagger.io'') (Inr ''0.2.11'')]"
  have root: "projectRoot envSymlink (Some exRoot) [] = Some (exRoot, [])"
    by (simp add: projectRoot_def)
  have wd: "isAbs exRoot \<or> (\<forall>t wd. getwd_r envSymlink t = Inr wd \<longrightarrow> isAbs wd)"
    by (simp add: exRoot_def)
  have sym: "\<forall>t. lstat_r envSymlink t (Join exRoot [''cue.mod'', ''pkg'', ''universe.dagger.io''])
               = Inr Symlink"
    by (simp add: envSymlink_def staticEnv_def exRoot_def)
  have own: "''universe.dagger.io'' \<notin> {''.gitignore'', ''.gitattributes'', lockFilePath}"
    by (simp add: lockFilePath_def)
  have tmp: "\<not> prefix ''vendor-'' ''universe.dagger.io''"
    by simp
  have old: "\<forall>m' \<in> fst ` set tableOrder. ''universe.dagger.io'' \<noteq> m' @ ''.old''"
    by (simp add: tableOrder_def)
  have ships: "\<forall>w \<in> set exBundle. materialized w \<longrightarrow>
                  \<not> suffix (''universe.dagger.io'' # versionFilePath) (wpath w)"
    by (simp add: exBundle_def versionFilePath_def suffix_to_prefix)
  note c6 = C6_symlinked_module_left_alone
              [where lib = dotted and b = "release ''0.2.11''", OF root wd sym own tmp old ships]
  have 1: "\<exists>res ts. Vendor (release ''0.2.11'') exBundle tableOrder envSymlink (Some exRoot) [] =
                 Some (res, [] @ ts)
            \<and> list_all (\<lambda>ev. \<not> disturbs (Join exRoot [''cue.mod'', ''pkg'', ''universe.dagger.io'']) ev
                               \<and> \<not> markerWriteFor ''universe.dagger.io'' ev) ts"
    by (rule conjunct1 [OF c6])
  have 2: "\<exists>res ts. EnsureCompatibility dotted (release ''0.2.11'') tableOrder envSymlink (Some exRoot) [] =
                   Some (res, [] @ ts)
              \<and> list_all (\<lambda>ev. readOnly ev
                     \<and> (\<forall>r. ev \<noteq> EReadFile
                                  (Join exRoot [''cue.mod'', ''pkg'', ''universe.dagger.io'',
                                                ''cue.mod'', ''version.txt'']) r))
                   ts"
    by (rule conjunct1 [OF conjunct2 [OF c6]])
  have 3: "checkModule dotted envSymlink [0, 2, 11] (Join exRoot [''cue.mod'', ''pkg''])
       (''universe.dagger.io'', [0, 2, 9]) [] =
       (None, [] @ [ELstat (Join exRoot [''cue.mod'', ''pkg'', ''universe.dagger.io'']) (Inr Symlink)])"
    using conjunct1 [OF conjunct2 [OF conjunct2 [OF c6]]] by blast
  have 4: "readfile_r envSymlink [] (exMarker ''universe.dagger.io'') = Inr ''0.0.1''"
    by (simp add: envSymlink_def staticEnv_def exMarker_def)
  have pre: "Version (release ''0.2.11'') \<noteq> DevelopmentVersion (release ''0.2.11'')
             \<and> gvNewVersion dotted (Version (release ''0.2.11'')) = Inr [0, 2, 11]
             \<and> checkModules dotted envSymlink [0, 2, 11] (Join exRoot [''cue.mod'', ''pkg''])
                 [(''dagger.io'', [0, 2, 11])] [] = (None, ?seen)"
    by (simp add: check_eval envSymlink_def)
  have "EnsureCompatibility dotted (release ''0.2.11'')
          ([(''dagger.io'', [0, 2, 11])] @ (''universe.dagger.io'', [0, 2, 9]) # [])
          envSymlink (Some exRoot) [] =
        Some (checkModules dotted envSymlink [0, 2, 11] (Join exRoot [''cue.mod'', ''pkg'']) []
                (?seen @ [ELstat (Join exRoot [''cue.mod'', ''pkg'', ''universe.dagger.io'']) (Inr Symlink)]))"
    using conjunct1 [OF conjunct2 [OF conjunct2 [OF conjunct2 [OF c6]]]] pre by blast
  then have 5: "EnsureCompatibility dotted (release ''0.2.11'') tableOrder envSymlink (Some exRoot) [] =
       Some (None,
             [ELstat (Path True [''proj'', ''cue.mod'', ''pkg'', ''dagger.io'']) (Inr Directory),
              EReadFile (exMarker ''dagger.io'') (Inr ''0.2.11''),
              ELstat (Path True [''proj'', ''cue.mod'', ''pkg'', ''universe.dagger.io'']) (Inr Symlink)])"
    by (simp add: tableOrder_def exRoot_def)
  have 6: "vendorModule (release ''0.2.11'') envSymlink (Join exRoot [''cue.mod'', ''pkg''])
       (Join exRoot [''cue.mod'', ''pkg'', ''vendor-042'']) ''universe.dagger.io'' [] [] =
       (None, [], [] @ [ELstat (Join exRoot [''cue.mod'', ''pkg'', ''universe.dagger.io'']) (Inr Symlink)])"
    using conjunct2 [OF conjunct2 [OF conjunct2 [OF conjunct2 [OF c6]]]] by blast
  show ?thesis by (intro conjI 1 2 3 6 4 5)
qed

text \<open>
  C9. Whenever the project root is found, \<open>Vendor\<close> returns, whatever the answers of the
  file system. If its run took the lock, its last two calls release the lock and remove
  the lock file; if its run created the staging directory, the call before these two
  removes the staging directory with all it holds. This is so for every result the run
  returns.
\<close>

theorem C9_deferred_cleanup:
  assumes "projectRoot e p t = Some (d, t0)"
  shows "\<exists>res ts.
           Vendor b FS order e p t = Some (res, t0 @ ts)
           \<and> (ELock (Join d [''cue.mod'', ''pkg'', lockFilePath]) None \<in> set ts \<longrightarrow>
                (\<exists>pre r1 r2.
                   ts = pre @ [EUnlock (Join d [''cue.mod'', ''pkg'', lockFilePath]) r1,
                               ERemove (Join d [''cue.mod'', ''pkg'', lockFilePath]) r2]))
           \<and> (\<forall>rnd. EMkdirTemp (Join d [''cue.mod'', ''pkg'']) ''vendor-*'' (Inr rnd) \<in> set ts \<longrightarrow>
                (\<exists>pre r0 r1 r2.
                   ts = pre @ [ERemoveAll (Join d [''cue.mod'', ''pkg'', ''vendor-'' @ rnd]) r0,
                               EUnlock (Join d [''cue.mod'', ''pkg'', lockFilePath]) r1,
                               ERemove (Join d [''cue.mod'', ''pkg'', lockFilePath]) r2]))"
proof -
  let ?pkg = "Join d [''cue.mod'', ''pkg'']"
  let ?lf = "Join ?pkg [lockFilePath]"
  obtain res ts where run: "Vendor b FS order e p t = Some (res, t0 @ ts)"
      and tr: "vendorTrace b FS order e d ts"
    using Vendor_trace [OF assms, of b FS order] by blast
  from tr consider
      (nodir) err where "ts = [EMkdirAll ?pkg mode0755 (Some err)]"
    | (nolock) err where "ts = [EMkdirAll ?pkg mode0755 None, ELock ?lf (Some err)]"
    | (locked) ts1 r1 r2 where
        "ts = [EMkdirAll ?pkg mode0755 None, ELock ?lf None] @ ts1 @ [EUnlock ?lf r1, ERemove ?lf r2]"
        "lockedTrace b FS order e d ?pkg ts1"
    unfolding vendorTrace_def Let_def by blast
  then have
    "(ELock ?lf None \<in> set ts \<longrightarrow> (\<exists>pre r1 r2. ts = pre @ [EUnlock ?lf r1, ERemove ?lf r2]))
     \<and> (\<forall>rnd. EMkdirTemp ?pkg ''vendor-*'' (Inr rnd) \<in> set ts \<longrightarrow>
           (\<exists>pre r0 r1 r2.
              ts = pre @ [ERemoveAll (Join ?pkg [''vendor-'' @ rnd]) r0, EUnlock ?lf r1, ERemove ?lf r2]))"
  proof cases
    case nodir
    then show ?thesis by simp
  next
    case nolock
    then show ?thesis by simp
  next
    case locked
    have a: "\<exists>pre r1 r2. ts = pre @ [EUnlock ?lf r1, ERemove ?lf r2]"
      using locked(1) by (metis append.assoc)
    have b: "\<exists>pre r0 r1 r2.
              ts = pre @ [ERemoveAll (Join ?pkg [''vendor-'' @ rnd]) r0, EUnlock ?lf r1, ERemove ?lf r2]"
      if "EMkdirTemp ?pkg ''vendor-*'' (Inr rnd) \<in> set ts" for rnd
    proof -
      from that locked(1) have "EMkdirTemp ?pkg ''vendor-*'' (Inr rnd) \<in> set ts1" by auto
      from lockedTrace_staging [OF locked(2) this] obtain pre r0 where
        "ts1 = pre @ [ERemoveAll (Join ?pkg [''vendor-'' @ rnd]) r0]" by blast
      then have "ts = ([EMkdirAll ?pkg mode0755 None, ELock ?lf None] @ pre)
                   @ [ERemoveAll (Join ?pkg [''vendor-'' @ rnd]) r0, EUnlock ?lf r1, ERemove ?lf r2]"
        using locked(1) by simp
      then show ?thesis by blast
    qed
    show ?thesis using a b by blast
  qed
  then show ?thesis using run by (simp del: append_assoc)
qed

theorem C9_deferred_cleanup_witness:
  "\<exists>res pre r0 r1 r2.
     Vendor (release ''0.2.11'') exBundle tableOrder envNoMarkers (Some exRoot) [] =
       Some (res, pre @ [ERemoveAll (Join exRoot [''cue.mod'', ''pkg'', ''vendor-042'']) r0,
                         EUnlock (Join exRoot [''cue.mod'', ''pkg'', lockFilePath]) r1,
                         ERemove (Join exRoot [''cue.mod'', ''pkg'', lockFilePath]) r2])"
proof -
  have root: "projectRoot envNoMarkers (Some exRoot) [] = Some (exRoot, [])"
    by (simp add: projectRoot_def)
  from C9_deferred_cleanup [OF root, of "release ''0.2.11''" exBundle tableOrder]
  obtain res ts where
    run: "Vendor (release ''0.2.11'') exBundle tableOrder envNoMarkers (Some exRoot) [] = Some (res, ts)"
    and staged: "\<forall>rnd. EMkdirTemp (Join exRoot [''cue.mod'', ''pkg'']) ''vendor-*'' (Inr rnd) \<in> set ts \<longrightarrow>
                (\<exists>pre r0 r1 r2.
                   ts = pre @ [ERemoveAll (Join exRoot [''cue.mod'', ''pkg'', ''vendor-'' @ rnd]) r0,
                               EUnlock (Join exRoot [''cue.mod'', ''pkg'', lockFilePath]) r1,
                               ERemove (Join exRoot [''cue.mod'', ''pkg'', lockFilePath]) r2])"
    by auto
  have "EMkdirTemp (Join exRoot [''cue.mod'', ''pkg'']) ''vendor-*'' (Inr ''042'') \<in> set ts"
    using run by (simp add: vendor_eval envNoMarkers_def exBundle_def) auto
  with staged obtain pre r0 r1 r2 where
    "ts = pre @ [ERemoveAll (Join exRoot [''cue.mod'', ''pkg'', ''vendor-'' @ ''042'']) r0,
                 EUnlock (Join exRoot [''cue.mod'', ''pkg'', lockFilePath]) r1,
                 ERemove (Join exRoot [''cue.mod'', ''pkg'', lockFilePath]) r2]"
    by blast
  then show ?thesis using run by auto
qed

section \<open>The extraction of the bundle\<close>


section \<open>The search for the project root\<close>

text \<open>
  C10. Let the search start at a directory and climb to a directory \<open>d\<close> above it (or
  start at \<open>d\<close>), every probe of the marker below \<open>d\<close> on the way answering not-exist. If
  the probe of the marker in \<open>d\<close> fails with an error other than not-exist, the search
  returns \<open>d\<close> with \<open>found = true\<close>, by calls that only probe. (The root itself is probed
  only when the search starts there.)
\<close>

theorem C10_probe_error_counts_as_found:
  assumes "\<forall>ds' t. ds' \<noteq> [] \<and> prefix ds' ds \<longrightarrow>
             stat_r e t (Path a (cs @ ds' @ [''cue.mod''])) = Inl ErrNotExist"
      and "\<forall>t. stat_r e t (Path a (cs @ [''cue.mod''])) = Inl err"
      and "err \<noteq> ErrNotExist"
      and "Path a cs \<noteq> rootPath \<or> ds = []"
  shows "\<exists>ts. GetCueModParent e [Path a (cs @ ds)] t = Some ((Path a cs, True), t @ ts)
              \<and> list_all isProbe ts"
proof -
  let ?g = "EGetwd (getwd_r e t)"
  have ne: "\<forall>t. \<not> isNotExist (stat_r e t (Path a (cs @ [''cue.mod''])))"
    using assms(2,3) by (cases err) simp_all
  obtain cwd where start: "GetCueModParent e [Path a (cs @ ds)] t =
      GetCueModParent_loop e cwd (Path a (cs @ ds)) (t @ [?g])"
    by (simp add: GetCueModParent_def os_Getwd_def Let_def)
  obtain y where r: "GetCueModParent_loop e cwd (Path a (cs @ ds)) (t @ [?g]) = Some y"
      and y: "fst y = (Path a cs, True)"
    using loop_climb_found [OF assms(1) ne assms(4), of cwd "t @ [?g]"] by auto
  have "extends isProbe (t @ [?g]) (snd y)" by (rule GetCueModParent_loop_extends [OF r])
  moreover have "extends isProbe t (t @ [?g])" by simp
  ultimately have "extends isProbe t (snd y)" by (rule extends_trans [rotated])
  then obtain ts where "snd y = t @ ts" "list_all isProbe ts" by (auto simp: extends_def)
  then show ?thesis using start r y by (cases y) auto
qed

theorem C10_probe_error_counts_as_found_witness:
  "\<exists>ts. GetCueModParent envDenied [Path True ([''a''] @ [''b'', ''c''])] [] =
           Some ((Path True [''a''], True), [] @ ts)
        \<and> list_all isProbe ts"
  by (rule C10_probe_error_counts_as_found [where err = ErrPermission])
     (auto simp: envDenied_def staticEnv_def rootPath_def)

text \<open>
  C3, as the code has it. Let the starting directory be rooted, and let every probe of the
  marker in it and in every directory above it answer not-exist. Then the search returns
  the working directory with \<open>found = false\<close>, by calls that only probe: the directory
  \<open>os.Getwd\<close> gave (the empty path where it failed), which is the starting directory when
  none is given.
\<close>

theorem C3_no_marker_returns_cwd:
  assumes "\<forall>ds t. prefix ds cs \<longrightarrow> stat_r e t (Path True (ds @ [''cue.mod''])) = Inl ErrNotExist"
      and "args = [Path True cs] \<or> (args = [] \<and> getwd_r e t = Inr (Path True cs))"
  shows "\<exists>ts. GetCueModParent e args t =
                Some (((case getwd_r e t of Inr wd \<Rightarrow> wd | Inl _ \<Rightarrow> Path False []), False), t @ ts)
              \<and> list_all isProbe ts"
proof -
  let ?g = "EGetwd (getwd_r e t)"
  let ?cwd = "case getwd_r e t of Inr wd \<Rightarrow> wd | Inl _ \<Rightarrow> Path False []"
  have start: "GetCueModParent e args t = GetCueModParent_loop e ?cwd (Path True cs) (t @ [?g])"
    using assms(2) by (auto simp: GetCueModParent_def os_Getwd_def Let_def)
  obtain ts where r: "GetCueModParent_loop e ?cwd (Path True cs) (t @ [?g]) =
                        Some ((?cwd, False), (t @ [?g]) @ ts)"
    using loop_climb_root [OF assms(1), of ?cwd "t @ [?g]"] by auto
  have "extends isProbe (t @ [?g]) ((t @ [?g]) @ ts)"
    using GetCueModParent_loop_extends [OF r] by (simp only: snd_conv)
  then have "list_all isProbe ts" by (simp only: extends_append)
  then have "list_all isProbe (?g # ts)" by simp
  then show ?thesis using start r by (intro exI [of _ "?g # ts"]) simp
qed

theorem C3_no_marker_returns_cwd_witness:
  "\<exists>ts. GetCueModParent envNoProject [Path True [''a'', ''b'']] [] =
           Some (((case getwd_r envNoProject [] of Inr wd \<Rightarrow> wd | Inl _ \<Rightarrow> Path False []), False),
                 [] @ ts)
        \<and> list_all isProbe ts"
  by (rule C3_no_marker_returns_cwd) (simp_all add: envNoProject_def staticEnv_def)

text \<open>
  C3 as stated fails: started at \<open>/a/b\<close> with the working directory \<open>/work\<close> and no marker
  anywhere, the search returns \<open>/work\<close>, not \<open>/a/b\<close>. (Started at the relative path \<open>a\<close>,
  it never returns: the parent of \<open>.\<close> is \<open>.\<close>, never the root.)
\<close>

theorem C3_counterexample:
  "GetCueModParent envNoProject [Path True [''a'', ''b'']] [] =
     Some ((Path True [''work''], False),
           [EGetwd (Inr (Path True [''work''])),
            EStat (Path True [''a'', ''b'', ''cue.mod'']) (Inl ErrNotExist),
            EStat (Path True [''a'', ''cue.mod'']) (Inl ErrNotExist)])
   \<and> GetCueModParent envNoProject [Path False [''a'']] [] = None"
proof -
  have 1: "GetCueModParent envNoProject [Path True [''a'', ''b'']] [] =
     Some ((Path True [''work''], False),
           [EGetwd (Inr (Path True [''work''])),
            EStat (Path True [''a'', ''b'', ''cue.mod'']) (Inl ErrNotExist),
            EStat (Path True [''a'', ''cue.mod'']) (Inl ErrNotExist)])"
    apply (simp add: GetCueModParent_def os_Getwd_def envNoProject_def staticEnv_def)
    apply (subst GetCueModParent_loop.simps)
    apply (simp add: os_Stat_def rootPath_def)
    apply (subst GetCueModParent_loop.simps)
    apply (simp add: os_Stat_def rootPath_def)
    done
  show ?thesis by (intro conjI 1 relative_diverges)
qed

end
